theory Spec2Isabelle
  imports Complex_Main "HOL-Library.AList"
begin

section \<open>Data model\<close>

text \<open>
  The collector of \<^verbatim>\<open>calibration/abb_real_data.py\<close> drives an ABB arm, an ATI force
  sensor and a tactile sensor.  Python floats are idealised as \<^typ>\<open>real\<close>; a Python
  \<^verbatim>\<open>dict\<close> is an association list in insertion order (\<^const>\<open>map_of\<close> reads it,
  \<^const>\<open>AList.update\<close> stores into it: an existing key keeps its place, a new key goes
  to the end).
\<close>

type_synonym vec3 = "real \<times> real \<times> real"

type_synonym ('k, 'v) dict = "('k \<times> 'v) list"

text \<open>A normalised trajectory step is the dict \<^verbatim>\<open>{"x": dx, "y": dy, "z": dz}\<close>.\<close>

type_synonym step = "(string, real) dict"

text \<open>The marker displacement field of the tactile sensor; its contents are never inspected.\<close>

type_synonym marker = "real list"

datatype error =
    ForceTooLarge real    \<comment> \<open>\<^verbatim>\<open>RuntimeError(f'Force too large: {fz}N')\<close>\<close>
  | ContactNotFound       \<comment> \<open>the \<^verbatim>\<open>RuntimeError\<close> after the contact loop\<close>
  | KeyError string
  | SensorError           \<comment> \<open>a sensor driver's read fails\<close>
  | TypeError
  | ValueError
  | AttributeError
  | YAMLError

record step_metadata =
  trajectory :: string
  step_index :: nat
  commanded_delta_mm :: vec3

record step_record =
  marker_displacement :: marker
  force_xyz :: "vec3 option"           \<comment> \<open>\<open>None\<close>: the mean of no samples (NaN)\<close>
  metadata :: "step_metadata option"   \<comment> \<open>\<open>None\<close>: the empty dict of \<^verbatim>\<open>metadata or {}\<close>\<close>
  depth_field :: "unit option"

type_synonym traj_data = "(string, step_record) dict"

type_synonym tree = "(string, (string, traj_data) dict) dict"

text \<open>A file of the file system, and a YAML or pickle document once loaded.\<close>

datatype 'a fs_file = Missing | Unreadable | Content 'a

datatype 'a doc = NotADict | Dict 'a

text \<open>Commands sent to the devices, in the order they are issued.\<close>

datatype event =
    RobotInitialize
  | SetAcceleration real real
  | SetVelocity real real
  | MoveCart vec3
  | MoveJoint real
  | Sleep real
  | AtiData vec3
  | AtiTare
  | TactileData marker
  | TactileCreate
  | TactileRelease
  | MotorOff

text \<open>Warnings and errors written to the logger (info and debug lines are left out).\<close>

datatype log_entry =
    LogForceTooLarge real
  | LogObjectMissing string
  | LogTrajFailed string error
  | LogStepFailed error
  | LogNoData
  | LogOverwrite string string string
  | LogStorageUnreadable
  | LogTrajFileMissing
  | LogTrajFileUnreadable
  | LogNoTrajectories
  | LogObjectUnknown string "string list"
  | LogCollectFailed error

record pose7 =
  p_x :: real
  p_y :: real
  p_z :: real
  q_w :: real
  q_x :: real
  q_y :: real
  q_z :: real

text \<open>
  The fields of \<^verbatim>\<open>ABBDataCollector\<close> followed by the devices it owns.  The robot's
  orientation is copied unchanged into every target pose and is not tracked.
  \<open>ati_src\<close> and \<open>tactile_src\<close> are what the sensors deliver on their successive reads
  (\<open>None\<close>: the driver raises); \<open>move_polls\<close> is for how many polls the driver's
  \<^verbatim>\<open>moving\<close> flag stays set after a motion command.
\<close>

record state =
  object_name :: string
  config :: "(string, real) dict"
  step_settle_time :: real
  safe_offset_mm :: real
  frame_interval :: real
  data_frames :: int
  trajectory_config :: "(string, (string, step list) dict) dict"
  storage_file :: "tree doc fs_file"
  pose0 :: pose7
  rot_sensor :: "vec3 \<Rightarrow> vec3"
  z_cont :: "real option"
  cont_th :: real
  calibration_data :: tree
  robot_pose :: vec3
  joint6 :: real
  busy :: nat
  move_polls :: nat
  ati_src :: "nat \<Rightarrow> vec3 option"
  ati_reads :: nat
  tactile_src :: "nat \<Rightarrow> marker option"
  tactile_reads :: nat
  events :: "event list"
  log :: "log_entry list"

text \<open>A call either raises or returns, and changes the state in both cases.\<close>

type_synonym 'a result = "(error + 'a) \<times> state"

section \<open>Devices\<close>

definition emit :: "event \<Rightarrow> state \<Rightarrow> state" where
  "emit e s = s\<lparr>events := events s @ [e]\<rparr>"

definition logger :: "log_entry \<Rightarrow> state \<Rightarrow> state" where
  "logger l s = s\<lparr>log := log s @ [l]\<rparr>"

text \<open>
  Modelled from the spec: the robot driver \<^verbatim>\<open>pyabb\<close> is not part of the sources.  A
  motion command sets the target pose; the \<^verbatim>\<open>moving\<close> flag reads true for
  \<open>move_polls\<close> further sleeps and then false (the spec: every motion is a blocking,
  hardware-paced operation that completes).
\<close>

definition robot_moving :: "state \<Rightarrow> bool" where
  "robot_moving s = (0 < busy s)"

definition sleep :: "real \<Rightarrow> state \<Rightarrow> state" where
  "sleep dt s = emit (Sleep dt) (s\<lparr>busy := busy s - 1\<rparr>)"

definition moveCart :: "vec3 \<Rightarrow> state \<Rightarrow> state" where
  "moveCart p s = emit (MoveCart p) (s\<lparr>robot_pose := p, busy := move_polls s\<rparr>)"

definition moveJoint :: "real \<Rightarrow> state \<Rightarrow> state" where
  "moveJoint j s = emit (MoveJoint j) (s\<lparr>joint6 := j, busy := move_polls s\<rparr>)"

definition set_velocity :: "real \<Rightarrow> real \<Rightarrow> state \<Rightarrow> state" where
  "set_velocity v w s = emit (SetVelocity v w) s"

definition set_acceleration :: "real \<Rightarrow> real \<Rightarrow> state \<Rightarrow> state" where
  "set_acceleration v w s = emit (SetAcceleration v w) s"

text \<open>\<^verbatim>\<open>while self.robot.moving: time.sleep(dt)\<close>\<close>

function wait_idle :: "real \<Rightarrow> state \<Rightarrow> state" where
  "wait_idle dt s = (if robot_moving s then wait_idle dt (sleep dt s) else s)"
  by pat_completeness auto
termination
  by (relation "measure (\<lambda>(dt, s). busy s)")
     (auto simp: robot_moving_def sleep_def emit_def)

declare wait_idle.simps [simp del]

definition get_ati_data :: "state \<Rightarrow> vec3 result" where
  "get_ati_data s =
     (let s1 = s\<lparr>ati_reads := Suc (ati_reads s)\<rparr>
      in case ati_src s (ati_reads s) of
           None \<Rightarrow> (Inl SensorError, s1)
         | Some v \<Rightarrow> (Inr v, emit (AtiData v) s1))"

definition sensor_get_data :: "state \<Rightarrow> marker result" where
  "sensor_get_data s =
     (let s1 = s\<lparr>tactile_reads := Suc (tactile_reads s)\<rparr>
      in case tactile_src s (tactile_reads s) of
           None \<Rightarrow> (Inl SensorError, s1)
         | Some m \<Rightarrow> (Inr m, emit (TactileData m) s1))"

text \<open>\<^verbatim>\<open>self.config[k]\<close>\<close>

definition config_item :: "string \<Rightarrow> state \<Rightarrow> error + real" where
  "config_item k s = (case map_of (config s) k of None \<Rightarrow> Inl (KeyError k) | Some v \<Rightarrow> Inr v)"

section \<open>Motion\<close>

definition move_to_xyz :: "real \<Rightarrow> real \<Rightarrow> real \<Rightarrow> state \<Rightarrow> state" where
  "move_to_xyz x y z s = wait_idle (step_settle_time s) (moveCart (x, y, z) s)"

definition move_delta_xyz :: "real \<Rightarrow> real \<Rightarrow> real \<Rightarrow> state \<Rightarrow> state" where
  "move_delta_xyz dx dy dz s =
     (case robot_pose s of (x, y, z) \<Rightarrow>
        wait_idle (step_settle_time s) (moveCart (x + dx, y + dy, z + dz) s))"

text \<open>
  The loop \<^verbatim>\<open>while not is_contact\<close> of \<^verbatim>\<open>move_to_contact\<close>, with the flag as its
  argument; it returns the flag it ends with.  Nothing bounds the number of rounds, so
  not returning is the value \<open>None\<close>.
\<close>

partial_function (option) seek_loop :: "bool \<Rightarrow> state \<Rightarrow> bool result option" where
  "seek_loop is_contact s =
     (if is_contact then Some (Inr is_contact, s)
      else (case get_ati_data s of
          (Inl e, s1) \<Rightarrow> Some (Inl e, s1)
        | (Inr (fx, fy, fz), s1) \<Rightarrow>
      (case config_item ''max_force'' s1 of
          Inl e \<Rightarrow> Some (Inl e, s1)
        | Inr max_force \<Rightarrow>
      (if fz \<le> max_force
       then Some (Inl (ForceTooLarge fz), logger (LogForceTooLarge fz) s1)
       else (case get_ati_data s1 of
          (Inl e, s2) \<Rightarrow> Some (Inl e, s2)
        | (Inr (gx, gy, fz_current), s2) \<Rightarrow>
      (if fz_current \<le> cont_th s2
       then Some (Inr True, s2\<lparr>z_cont := Some (snd (snd (robot_pose s2)))\<rparr>)
       else seek_loop is_contact (sleep 0.2 (move_delta_xyz 0 0 (- 0.01) s2))))))))"

declare seek_loop.simps [code]

definition move_to_contact :: "state \<Rightarrow> unit result option" where
  "move_to_contact s =
     (let s1 = (case z_cont s of
                  Some zc \<Rightarrow>
                    (let s' = set_velocity 20 20 s
                     in (case robot_pose s' of (x, y, z) \<Rightarrow> move_to_xyz x y (zc + 0.1) s'))
                | None \<Rightarrow> move_to_xyz 556.97 (- 200.20) (115.05 + 0.1) s)
      in (case config_item ''approach_speed'' s1 of
           Inl e \<Rightarrow> Some (Inl e, s1)
         | Inr v \<Rightarrow>
       (case seek_loop False (set_velocity v v s1) of
           None \<Rightarrow> None
         | Some (Inl e, s2) \<Rightarrow> Some (Inl e, s2)
         | Some (Inr is_contact, s2) \<Rightarrow>
       (if \<not> is_contact then Some (Inl ContactNotFound, s2)
        else (case config_item ''press_speed'' s2 of
           Inl e \<Rightarrow> Some (Inl e, s2)
         | Inr p \<Rightarrow> Some (Inr (), set_velocity p p s2))))))"

section \<open>Sampling and trajectory execution\<close>

definition get_sensor_force_xyz :: "state \<Rightarrow> vec3 result" where
  "get_sensor_force_xyz s =
     (case get_ati_data s of
        (Inl e, s1) \<Rightarrow> (Inl e, s1)
      | (Inr f_xyz, s1) \<Rightarrow> (Inr (rot_sensor s1 f_xyz), s1))"

text \<open>\<^verbatim>\<open>np.mean(force_data_list, axis=0)\<close>; of no samples it is NaN, here \<open>None\<close>.\<close>

definition mean3 :: "vec3 list \<Rightarrow> vec3 option" where
  "mean3 fs =
     (if fs = [] then None
      else Some (sum_list (map fst fs) / real (length fs),
                 sum_list (map (fst \<circ> snd) fs) / real (length fs),
                 sum_list (map (snd \<circ> snd) fs) / real (length fs)))"

text \<open>\<^verbatim>\<open>for _ in range(self.data_frames)\<close>, by the rounds left.\<close>

fun read_frames :: "nat \<Rightarrow> vec3 list \<Rightarrow> state \<Rightarrow> vec3 list result" where
  "read_frames 0 force_data_list s = (Inr force_data_list, s)"
| "read_frames (Suc n) force_data_list s =
     (case get_sensor_force_xyz s of
        (Inl e, s1) \<Rightarrow> (Inl e, s1)
      | (Inr f_xyz, s1) \<Rightarrow>
          read_frames n (force_data_list @ [f_xyz]) (sleep (frame_interval s1) s1))"

text \<open>The handler of \<^verbatim>\<open>_collect_current_step_data\<close> logs the exception and raises it again.\<close>

definition collect_current_step_data :: "step_metadata option \<Rightarrow> state \<Rightarrow> step_record result" where
  "collect_current_step_data md s =
     (case sensor_get_data s of
        (Inl e, s1) \<Rightarrow> (Inl e, logger (LogStepFailed e) s1)
      | (Inr marker_disp, s1) \<Rightarrow>
     (case read_frames (nat (data_frames s1)) [] s1 of
        (Inl e, s2) \<Rightarrow> (Inl e, logger (LogStepFailed e) s2)
      | (Inr force_data_list, s2) \<Rightarrow>
          (Inr \<lparr>marker_displacement = marker_disp, force_xyz = mean3 force_data_list,
                metadata = md, depth_field = None\<rparr>, s2)))"

definition move_to_safe_position :: "state \<Rightarrow> state" where
  "move_to_safe_position s =
     (let s1 = set_velocity 20 20 s;
          safe_z = p_z (pose0 s1) + max (safe_offset_mm s1) 50
      in (case robot_pose s1 of (x, y, z) \<Rightarrow> sleep 1 (move_to_xyz x y safe_z s1)))"

definition move_to_safe_height :: "state \<Rightarrow> state" where
  "move_to_safe_height s =
     (let safe_z = (case z_cont s of
                      Some zc \<Rightarrow> zc + safe_offset_mm s
                    | None \<Rightarrow> p_z (pose0 s) + safe_offset_mm s)
      in (case robot_pose s of (x, y, z) \<Rightarrow> sleep 0.5 (move_to_xyz x y safe_z s)))"

text \<open>\<^verbatim>\<open>f"step_{idx:03d}"\<close>: the decimal digits of the index, zero-padded to width three.\<close>

definition digit :: "nat \<Rightarrow> char" where
  "digit d = ''0123456789'' ! d"

fun dec :: "nat \<Rightarrow> string" where
  "dec n = (if n < 10 then [digit n] else dec (n div 10) @ [digit (n mod 10)])"

declare dec.simps [simp del]

definition zfill3 :: "string \<Rightarrow> string" where
  "zfill3 ds = replicate (3 - length ds) CHR ''0'' @ ds"

definition step_key :: "nat \<Rightarrow> string" where
  "step_key idx = ''step_'' @ zfill3 (dec idx)"

text \<open>Reading a decimal numeral back, the inverse of the formatting.\<close>

definition digit_value :: "char \<Rightarrow> nat" where
  "digit_value c = of_char c - 48"

definition decimal_value :: "string \<Rightarrow> nat" where
  "decimal_value ds = foldl (\<lambda>a c. 10 * a + digit_value c) 0 ds"

text \<open>\<^verbatim>\<open>step.get(k, 0.0)\<close>\<close>

definition step_get :: "string \<Rightarrow> step \<Rightarrow> real" where
  "step_get k st = (case map_of st k of None \<Rightarrow> 0 | Some v \<Rightarrow> v)"

text \<open>
  The loop over \<^verbatim>\<open>enumerate(steps)\<close>.  The test \<^verbatim>\<open>if step_data\<close> is on a dict of four
  keys and always passes.
\<close>

fun steps_loop :: "string \<Rightarrow> (nat \<times> step) list \<Rightarrow> traj_data \<Rightarrow> state \<Rightarrow> traj_data result" where
  "steps_loop trajectory_name [] trajectory_data s = (Inr trajectory_data, s)"
| "steps_loop trajectory_name ((idx, st) # rest) trajectory_data s =
     (let dx = step_get ''x'' st; dy = step_get ''y'' st; dz = step_get ''z'' st;
          s1 = move_delta_xyz dx dy dz s;
          md = \<lparr>trajectory = trajectory_name, step_index = idx,
                commanded_delta_mm = (dx, dy, dz)\<rparr>
      in (case collect_current_step_data (Some md) s1 of
            (Inl e, s2) \<Rightarrow> (Inl e, s2)
          | (Inr step_data, s2) \<Rightarrow>
              steps_loop trajectory_name rest
                (AList.update (step_key idx) step_data trajectory_data) s2))"

definition execute_trajectory :: "string \<Rightarrow> step list \<Rightarrow> state \<Rightarrow> traj_data result option" where
  "execute_trajectory trajectory_name steps s =
     (if steps = [] then Some (Inr [], s)
      else
        (let s0 = move_to_safe_height s;
             s1 = sleep (step_settle_time s0) s0
         in (case move_to_contact s1 of
               None \<Rightarrow> None
             | Some (Inl e, s2) \<Rightarrow> Some (Inl e, s2)
             | Some (Inr u, s2) \<Rightarrow>
          (let s3 = sleep (step_settle_time s2) s2
           in (case steps_loop trajectory_name (enumerate 0 steps) [] s3 of
                 (Inl e, s4) \<Rightarrow> Some (Inl e, s4)
               | (Inr trajectory_data, s4) \<Rightarrow>
                   (let s5 = move_to_safe_height s4
                    in Some (Inr trajectory_data, sleep (step_settle_time s5) s5)))))))"

section \<open>The session\<close>

text \<open>
  The loop over \<^verbatim>\<open>trajectories.items()\<close>; its \<^verbatim>\<open>except Exception\<close> catches every error
  of \<^typ>\<open>error\<close>, logs it and goes on.
\<close>

fun collect_loop ::
  "(string \<times> step list) list \<Rightarrow> (string, traj_data) dict \<Rightarrow> state
     \<Rightarrow> ((string, traj_data) dict \<times> state) option" where
  "collect_loop [] object_data s = Some (object_data, s)"
| "collect_loop ((traj_name, steps) # rest) object_data s =
     (case execute_trajectory traj_name steps s of
        None \<Rightarrow> None
      | Some (Inl exc, s1) \<Rightarrow> collect_loop rest object_data (logger (LogTrajFailed traj_name exc) s1)
      | Some (Inr traj_data, s1) \<Rightarrow>
          collect_loop rest
            (if traj_data \<noteq> [] then AList.update traj_name traj_data object_data
             else object_data) s1)"

definition collect_calibration_data :: "state \<Rightarrow> tree result option" where
  "collect_calibration_data s =
     (let trajectories = (case map_of (trajectory_config s) (object_name s) of
                            None \<Rightarrow> [] | Some ts \<Rightarrow> ts)
      in if trajectories = []
         then Some (Inr [(object_name s, [])],
                    (logger (LogObjectMissing (object_name s)) s)
                      \<lparr>calibration_data := AList.update (object_name s) [] (calibration_data s)\<rparr>)
         else (case collect_loop trajectories [] s of
                 None \<Rightarrow> None
               | Some (object_data, s1) \<Rightarrow>
                   Some (Inr [(object_name s1, object_data)],
                         s1\<lparr>calibration_data :=
                              AList.update (object_name s1) object_data (calibration_data s1)\<rparr>)))"

section \<open>Persistent storage\<close>

definition load_storage :: "state \<Rightarrow> tree \<times> state" where
  "load_storage s =
     (case storage_file s of
        Missing \<Rightarrow> ([], s)
      | Unreadable \<Rightarrow> ([], logger LogStorageUnreadable s)
      | Content NotADict \<Rightarrow> ([], s)
      | Content (Dict d) \<Rightarrow> (d, s))"

definition save_storage :: "tree \<Rightarrow> state \<Rightarrow> state" where
  "save_storage d s = s\<lparr>storage_file := Content (Dict d)\<rparr>"

text \<open>\<^verbatim>\<open>d.setdefault(k, {})\<close>\<close>

definition setdefault :: "'k \<Rightarrow> 'v \<Rightarrow> ('k, 'v) dict \<Rightarrow> ('k, 'v) dict" where
  "setdefault k v d = (case map_of d k of None \<Rightarrow> d @ [(k, v)] | Some u \<Rightarrow> d)"

text \<open>\<^verbatim>\<open>storage[obj][traj][step]\<close>, absent when a level is.\<close>

definition lookup3 :: "tree \<Rightarrow> string \<Rightarrow> string \<Rightarrow> string \<Rightarrow> step_record option" where
  "lookup3 d obj traj k =
     (case map_of d obj of
        None \<Rightarrow> None
      | Some od \<Rightarrow> (case map_of od traj of None \<Rightarrow> None | Some td \<Rightarrow> map_of td k))"

text \<open>\<^verbatim>\<open>storage[obj][traj]\<close>, absent when a level is.\<close>

definition lookup2 :: "('a, ('b, 'c) dict) dict \<Rightarrow> 'a \<Rightarrow> 'b \<Rightarrow> 'c option" where
  "lookup2 d obj traj = (case map_of d obj of None \<Rightarrow> None | Some od \<Rightarrow> map_of od traj)"

text \<open>
  The three nested loops of \<^verbatim>\<open>save_calibration_data\<close>, innermost first, over the
  storage and the warnings written so far.  \<^verbatim>\<open>copy.deepcopy\<close> is the identity on values.
\<close>

fun merge_steps ::
  "string \<Rightarrow> string \<Rightarrow> (string \<times> step_record) list \<Rightarrow> tree \<times> log_entry list
     \<Rightarrow> tree \<times> log_entry list" where
  "merge_steps obj_name traj_name [] acc = acc"
| "merge_steps obj_name traj_name ((k, step_data) # rest) (storage, warnings) =
     merge_steps obj_name traj_name rest
       (AList.map_entry obj_name (AList.map_entry traj_name (AList.update k step_data)) storage,
        if lookup3 storage obj_name traj_name k \<noteq> None
        then warnings @ [LogOverwrite obj_name traj_name k] else warnings)"

fun merge_trajs ::
  "string \<Rightarrow> (string \<times> traj_data) list \<Rightarrow> tree \<times> log_entry list \<Rightarrow> tree \<times> log_entry list" where
  "merge_trajs obj_name [] acc = acc"
| "merge_trajs obj_name ((traj_name, traj_steps) # rest) (storage, warnings) =
     merge_trajs obj_name rest
       (merge_steps obj_name traj_name traj_steps
          (AList.map_entry obj_name (setdefault traj_name []) storage, warnings))"

fun merge_objs :: "tree \<Rightarrow> tree \<times> log_entry list \<Rightarrow> tree \<times> log_entry list" where
  "merge_objs [] acc = acc"
| "merge_objs ((obj_name, obj_data) # rest) (storage, warnings) =
     merge_objs rest (merge_trajs obj_name obj_data (setdefault obj_name [] storage, warnings))"

definition save_calibration_data :: "state \<Rightarrow> state" where
  "save_calibration_data s =
     (if calibration_data s = [] then logger LogNoData s
      else (case load_storage s of (storage, s1) \<Rightarrow>
             (case merge_objs (calibration_data s1) (storage, []) of (storage', warnings) \<Rightarrow>
                save_storage storage' (s1\<lparr>log := log s1 @ warnings\<rparr>))))"

definition cleanup :: "state \<Rightarrow> state" where
  "cleanup s =
     (let s1 = move_to_safe_position s;
          s2 = (if calibration_data s1 \<noteq> [] then save_calibration_data s1 else s1);
          s3 = emit TactileRelease s2
      in emit MotorOff (sleep 1 s3))"

section \<open>Configuration and the trajectory library\<close>

datatype json =
    JNull
  | JBool bool
  | JNum real
  | JStr string
  | JArr "json list"
  | JObj "(string \<times> json) list"

text \<open>
  \<^verbatim>\<open>float(v)\<close> on a JSON value.  What Python makes of a string is the parameter \<open>sf\<close>
  (\<open>None\<close>: \<^verbatim>\<open>ValueError\<close>).
\<close>

definition py_float :: "(string \<Rightarrow> real option) \<Rightarrow> json \<Rightarrow> error + real" where
  "py_float sf j =
     (case j of
        JNum r \<Rightarrow> Inr r
      | JBool b \<Rightarrow> Inr (if b then 1 else 0)
      | JStr t \<Rightarrow> (case sf t of None \<Rightarrow> Inl ValueError | Some r \<Rightarrow> Inr r)
      | JNull \<Rightarrow> Inl TypeError
      | JArr xs \<Rightarrow> Inl TypeError
      | JObj kvs \<Rightarrow> Inl TypeError)"

definition mk_step :: "real \<Rightarrow> real \<Rightarrow> real \<Rightarrow> step" where
  "mk_step dx dy dz = [(''x'', dx), (''y'', dy), (''z'', dz)]"

text \<open>The three conversions of one entry, in the order x, y, z.\<close>

definition float3 :: "(string \<Rightarrow> real option) \<Rightarrow> json \<Rightarrow> json \<Rightarrow> json \<Rightarrow> error + step" where
  "float3 sf a b c =
     (case py_float sf a of
        Inl e \<Rightarrow> Inl e
      | Inr dx \<Rightarrow>
     (case py_float sf b of
        Inl e \<Rightarrow> Inl e
      | Inr dy \<Rightarrow>
     (case py_float sf c of
        Inl e \<Rightarrow> Inl e
      | Inr dz \<Rightarrow> Inr (mk_step dx dy dz))))"

text \<open>\<^verbatim>\<open>entry.get(k, 0.0)\<close>\<close>

definition entry_get :: "(string \<times> json) list \<Rightarrow> string \<Rightarrow> json" where
  "entry_get kvs k = (case map_of kvs k of None \<Rightarrow> JNum 0 | Some v \<Rightarrow> v)"

fun norm_entries :: "(string \<Rightarrow> real option) \<Rightarrow> json list \<Rightarrow> step list \<Rightarrow> error + step list" where
  "norm_entries sf [] steps = Inr steps"
| "norm_entries sf (JObj kvs # rest) steps =
     (case float3 sf (entry_get kvs ''x'') (entry_get kvs ''y'') (entry_get kvs ''z'') of
        Inl e \<Rightarrow> Inl e
      | Inr st \<Rightarrow> norm_entries sf rest (steps @ [st]))"
| "norm_entries sf (JArr [a, b, c] # rest) steps =
     (case float3 sf a b c of
        Inl e \<Rightarrow> Inl e
      | Inr st \<Rightarrow> norm_entries sf rest (steps @ [st]))"
| "norm_entries sf (entry # rest) steps = norm_entries sf rest steps"

text \<open>What \<^verbatim>\<open>zip\<close> iterates: a list, the characters of a string, the keys of a dict.\<close>

definition py_iter :: "json \<Rightarrow> error + json list" where
  "py_iter j =
     (case j of
        JArr xs \<Rightarrow> Inr xs
      | JStr t \<Rightarrow> Inr (map (\<lambda>c. JStr [c]) t)
      | JObj kvs \<Rightarrow> Inr (map (\<lambda>kv. JStr (fst kv)) kvs)
      | JNull \<Rightarrow> Inl TypeError
      | JBool b \<Rightarrow> Inl TypeError
      | JNum r \<Rightarrow> Inl TypeError)"

fun norm_zip ::
  "(string \<Rightarrow> real option) \<Rightarrow> json list \<Rightarrow> json list \<Rightarrow> json list \<Rightarrow> step list
     \<Rightarrow> error + step list" where
  "norm_zip sf (dx # xs) (dy # ys) (dz # zs) steps =
     (case float3 sf dx dy dz of
        Inl e \<Rightarrow> Inl e
      | Inr st \<Rightarrow> norm_zip sf xs ys zs (steps @ [st]))"
| "norm_zip sf xs ys zs steps = Inr steps"

text \<open>The body of the loop over \<^verbatim>\<open>traj_dict.items()\<close> that fills \<^verbatim>\<open>steps\<close>.\<close>

definition normalize_steps :: "(string \<Rightarrow> real option) \<Rightarrow> json \<Rightarrow> error + step list" where
  "normalize_steps sf steps_payload =
     (case steps_payload of
        JArr entries \<Rightarrow> norm_entries sf entries []
      | JObj kvs \<Rightarrow>
          (if {''x'', ''y'', ''z''} \<subseteq> fst ` set kvs
           then (case py_iter (entry_get kvs ''x'') of
                   Inl e \<Rightarrow> Inl e
                 | Inr x_seq \<Rightarrow>
                (case py_iter (entry_get kvs ''y'') of
                   Inl e \<Rightarrow> Inl e
                 | Inr y_seq \<Rightarrow>
                (case py_iter (entry_get kvs ''z'') of
                   Inl e \<Rightarrow> Inl e
                 | Inr z_seq \<Rightarrow> norm_zip sf x_seq y_seq z_seq [])))
           else Inr [])
      | JNull \<Rightarrow> Inr []
      | JBool b \<Rightarrow> Inr []
      | JNum r \<Rightarrow> Inr []
      | JStr t \<Rightarrow> Inr [])"

fun load_trajs ::
  "(string \<Rightarrow> real option) \<Rightarrow> (string \<times> json) list \<Rightarrow> (string, step list) dict
     \<Rightarrow> error + (string, step list) dict" where
  "load_trajs sf [] obj_trajs = Inr obj_trajs"
| "load_trajs sf ((traj_name, steps_payload) # rest) obj_trajs =
     (case normalize_steps sf steps_payload of
        Inl e \<Rightarrow> Inl e
      | Inr steps \<Rightarrow>
          load_trajs sf rest
            (if steps \<noteq> [] then AList.update traj_name steps obj_trajs else obj_trajs))"

fun load_objs ::
  "(string \<Rightarrow> real option) \<Rightarrow> (string \<times> json) list \<Rightarrow> (string, (string, step list) dict) dict
     \<Rightarrow> error + (string, (string, step list) dict) dict" where
  "load_objs sf [] normalized = Inr normalized"
| "load_objs sf ((obj_name, JObj traj_dict) # rest) normalized =
     (case load_trajs sf traj_dict [] of
        Inl e \<Rightarrow> Inl e
      | Inr obj_trajs \<Rightarrow>
          load_objs sf rest
            (if obj_trajs \<noteq> [] then AList.update obj_name obj_trajs normalized else normalized))"
| "load_objs sf ((obj_name, traj_dict) # rest) normalized = load_objs sf rest normalized"

text \<open>
  \<^verbatim>\<open>_load_trajectory_config\<close>, with the lines it logs.  Only the parse of the file is
  inside its \<^verbatim>\<open>try\<close>; \<^verbatim>\<open>.items()\<close> of a document that is no dict raises.
\<close>

definition load_trajectory_config ::
  "(string \<Rightarrow> real option) \<Rightarrow> json fs_file
     \<Rightarrow> (error + (string, (string, step list) dict) dict) \<times> log_entry list" where
  "load_trajectory_config sf traj_file =
     (case traj_file of
        Missing \<Rightarrow> (Inr [], [LogTrajFileMissing])
      | Unreadable \<Rightarrow> (Inr [], [LogTrajFileUnreadable])
      | Content (JObj raw_config) \<Rightarrow>
          (case load_objs sf raw_config [] of
             Inl e \<Rightarrow> (Inl e, [])
           | Inr normalized \<Rightarrow> (Inr normalized, if normalized = [] then [LogNoTrajectories] else []))
      | Content other \<Rightarrow> (Inl AttributeError, []))"

definition load_available_objects :: "json fs_file \<Rightarrow> string list" where
  "load_available_objects traj_file =
     (case traj_file of Content (JObj cfg) \<Rightarrow> map fst cfg | other \<Rightarrow> [])"

definition get_default_config :: "(string, real) dict" where
  "get_default_config =
     [(''contact_threshold'', - 0.02), (''approach_speed'', 1), (''press_speed'', 8),
      (''max_force'', - 1), (''data_frames'', 30), (''frame_interval'', 0.1),
      (''step_settle_time'', 0.3), (''safe_offset_mm'', 8.0)]"

text \<open>\<^verbatim>\<open>self.config.get(k, d)\<close>\<close>

definition config_get :: "(string, real) dict \<Rightarrow> string \<Rightarrow> real \<Rightarrow> real" where
  "config_get cfg k d = (case map_of cfg k of None \<Rightarrow> d | Some v \<Rightarrow> v)"

text \<open>\<^verbatim>\<open>int(v)\<close> truncates towards zero.\<close>

definition py_int :: "real \<Rightarrow> int" where
  "py_int r = (if 0 \<le> r then \<lfloor>r\<rfloor> else \<lceil>r\<rceil>)"

section \<open>Start-up and the command line\<close>

text \<open>
  What the process finds around it: the trajectory library \<^verbatim>\<open>traj.json\<close>, the storage
  file, Python's reading of numeric strings, and the devices.
\<close>

record env =
  traj_file :: "json fs_file"
  str_float :: "string \<Rightarrow> real option"
  env_storage :: "tree doc fs_file"
  env_rot :: "vec3 \<Rightarrow> vec3"
  env_pose :: vec3
  env_joint6 :: real
  env_move_polls :: nat
  env_ati :: "nat \<Rightarrow> vec3 option"
  env_tactile :: "nat \<Rightarrow> marker option"

text \<open>
  The parsed command line; \<open>arg_config\<close> is the file behind \<^verbatim>\<open>--config\<close> when the option
  is given.  \<^verbatim>\<open>--storage\<close> only chooses the path whose contents are \<open>env_storage\<close>.
\<close>

record args =
  arg_object :: string
  arg_pose :: "pose7 option"
  arg_config :: "(string, real) dict doc fs_file option"
  arg_dry_run :: bool

definition check_joint_limit :: "state \<Rightarrow> state" where
  "check_joint_limit s =
     (if joint6 s > 180 then moveJoint (joint6 s - 360) s
      else if joint6 s < - 180 then moveJoint (joint6 s + 360) s
      else s)"

text \<open>
  \<^verbatim>\<open>ABBDataCollector.__init__\<close>.  Everything that can raise (the YAML parse, \<^verbatim>\<open>.get\<close> on
  a document that is no dict, the trajectory library) comes before the first device
  command.
\<close>

definition init ::
  "pose7 \<Rightarrow> string \<Rightarrow> (string, real) dict doc fs_file option \<Rightarrow> env \<Rightarrow> error + state" where
  "init pose obj config_file ev =
     (case (case config_file of
              Some (Content d) \<Rightarrow> Inr d
            | Some Unreadable \<Rightarrow> Inl YAMLError
            | Some Missing \<Rightarrow> Inr (Dict get_default_config)
            | None \<Rightarrow> Inr (Dict get_default_config)) of
        Inl e \<Rightarrow> Inl e
      | Inr NotADict \<Rightarrow> Inl AttributeError
      | Inr (Dict cfg) \<Rightarrow>
     (case load_trajectory_config (str_float ev) (traj_file ev) of
        (Inl e, lg) \<Rightarrow> Inl e
      | (Inr tc, lg) \<Rightarrow>
          (let s0 = \<lparr>object_name = obj, config = cfg,
                     step_settle_time = config_get cfg ''step_settle_time'' 0.3,
                     safe_offset_mm = config_get cfg ''safe_offset_mm'' 1.0,
                     frame_interval = config_get cfg ''frame_interval'' 0.1,
                     data_frames = py_int (config_get cfg ''data_frames'' 10),
                     trajectory_config = tc, storage_file = env_storage ev,
                     pose0 = pose, rot_sensor = env_rot ev, z_cont = None,
                     cont_th = config_get cfg ''contact_threshold'' (- 0.05),
                     calibration_data = [], robot_pose = env_pose ev,
                     joint6 = env_joint6 ev, busy = 0, move_polls = env_move_polls ev,
                     ati_src = env_ati ev, ati_reads = 0,
                     tactile_src = env_tactile ev, tactile_reads = 0,
                     events = [], log = lg\<rparr>;
               s1 = set_velocity 20 20 (set_acceleration 0.5 0.5 (emit RobotInitialize s0));
               s2 = sleep 1 (check_joint_limit (moveCart (574.33, - 176.67, 194.89) s1));
               s3 = sleep 1 (moveCart (p_x pose, p_y pose, p_z pose) s2);
               s4 = emit AtiTare (sleep 2 s3)
           in Inr (emit TactileCreate s4))))"

definition pose0_default :: pose7 where
  "pose0_default =
     \<lparr>p_x = 574.33 - 32 + 28.5 / 2, p_y = - 176.67 - 32 + 17.2 / 2, p_z = 94.89 + 20 + 20,
      q_w = 0, q_x = 1, q_y = 0, q_z = 0\<rparr>"

text \<open>
  How \<^verbatim>\<open>main\<close> ends: it returns before the collector exists, an exception of
  \<^verbatim>\<open>__init__\<close> leaves it, or it runs to the end of \<^verbatim>\<open>cleanup\<close>.
\<close>

datatype outcome = Rejected "log_entry list" | Raised error | Done state

definition main :: "args \<Rightarrow> env \<Rightarrow> outcome option" where
  "main a ev =
     (let available_objects = load_available_objects (traj_file ev)
      in if available_objects \<noteq> [] \<and> arg_object a \<notin> set available_objects
         then Some (Rejected [LogObjectUnknown (arg_object a) available_objects])
         else (case init (case arg_pose a of Some p \<Rightarrow> p | None \<Rightarrow> pose0_default)
                         (arg_object a) (arg_config a) ev of
                 Inl e \<Rightarrow> Some (Raised e)
               | Inr collector \<Rightarrow>
                   (if arg_dry_run a then Some (Done (cleanup collector))
                    else (case collect_calibration_data collector of
                            None \<Rightarrow> None
                          | Some (Inl e, s1) \<Rightarrow> Some (Done (cleanup (logger (LogCollectFailed e) s1)))
                          | Some (Inr calibration, s1) \<Rightarrow> Some (Done (cleanup s1))))))"

section \<open>Inputs used in the statements below\<close>

text \<open>
  The three ways \<^verbatim>\<open>traj.json\<close> may write a sequence of displacements: a list of
  \<^verbatim>\<open>{"x": dx, "y": dy, "z": dz}\<close> objects, a list of three-element lists, and three
  parallel sequences under the keys \<^verbatim>\<open>"x"\<close>, \<^verbatim>\<open>"y"\<close>, \<^verbatim>\<open>"z"\<close>.
\<close>

definition step_of :: "vec3 \<Rightarrow> step" where
  "step_of t = mk_step (fst t) (fst (snd t)) (snd (snd t))"

definition enc_objects :: "vec3 list \<Rightarrow> json" where
  "enc_objects ts =
     JArr (map (\<lambda>t. JObj [(''x'', JNum (fst t)), (''y'', JNum (fst (snd t))),
                            (''z'', JNum (snd (snd t)))]) ts)"

definition enc_tuples :: "vec3 list \<Rightarrow> json" where
  "enc_tuples ts =
     JArr (map (\<lambda>t. JArr [JNum (fst t), JNum (fst (snd t)), JNum (snd (snd t))]) ts)"

definition enc_parallel :: "vec3 list \<Rightarrow> json" where
  "enc_parallel ts =
     JObj [(''x'', JArr (map (\<lambda>t. JNum (fst t)) ts)),
           (''y'', JArr (map (\<lambda>t. JNum (fst (snd t))) ts)),
           (''z'', JArr (map (\<lambda>t. JNum (snd (snd t))) ts))]"

text \<open>A tree as Python holds it: no dict of it has a key twice.\<close>

definition wf_tree :: "tree \<Rightarrow> bool" where
  "wf_tree d =
     (distinct (map fst d) \<and>
      list_all (\<lambda>od. distinct (map fst od) \<and> list_all (\<lambda>td. distinct (map fst td)) (map snd od))
        (map snd d))"

text \<open>
  A laboratory: no storage file yet, a robot that is idle as soon as it is polled, a
  tactile sensor that always answers, and a force sensor and a trajectory library still
  to be chosen.
\<close>

definition lab_env :: "json fs_file \<Rightarrow> (nat \<Rightarrow> vec3 option) \<Rightarrow> env" where
  "lab_env tf ati =
     \<lparr>traj_file = tf, str_float = (\<lambda>t. None), env_storage = Missing,
      env_rot = (\<lambda>v. v), env_pose = (574.33, - 176.67, 194.89), env_joint6 = 0,
      env_move_polls = 0, env_ati = ati, env_tactile = (\<lambda>k. Some [])\<rparr>"

definition lab_args :: "bool \<Rightarrow> args" where
  "lab_args dry = \<lparr>arg_object = ''cube'', arg_pose = None, arg_config = None, arg_dry_run = dry\<rparr>"

text \<open>The collector for the object \<^verbatim>\<open>cube\<close> as the constructor leaves it in that laboratory.\<close>

definition lab_collector ::
  "(string, real) dict doc fs_file option \<Rightarrow> json fs_file \<Rightarrow> (nat \<Rightarrow> vec3 option)
     \<Rightarrow> error + state" where
  "lab_collector cf tf ati = init pose0_default ''cube'' cf (lab_env tf ati)"

text \<open>
  A configuration file that takes one force sample per step, and a library with two
  one-step trajectories for the object.
\<close>

definition quick_config :: "(string, real) dict doc fs_file option" where
  "quick_config =
     Some (Content (Dict [(''contact_threshold'', - 0.05), (''approach_speed'', 1),
                          (''press_speed'', 8), (''max_force'', - 1), (''data_frames'', 1)]))"

definition two_pushes :: "json fs_file" where
  "two_pushes =
     Content (JObj [(''cube'', JObj [(''a'', JArr [JArr [JNum 0, JNum 0, JNum (- 1)]]),
                                     (''b'', JArr [JArr [JNum 0, JNum 0, JNum (- 1)]])])])"

text \<open>A force sensor that always reads \<open>v\<close>, and one that reads \<open>v\<close> once and \<open>w\<close> from then on.\<close>

definition steady_force :: "vec3 \<Rightarrow> nat \<Rightarrow> vec3 option" where
  "steady_force v k = Some v"

definition force_then :: "vec3 \<Rightarrow> vec3 \<Rightarrow> nat \<Rightarrow> vec3 option" where
  "force_then v w k = (if k = 0 then Some v else Some w)"

text \<open>The force vectors read from the ATI sensor so far, in order.\<close>

definition sampled_forces :: "state \<Rightarrow> vec3 list" where
  "sampled_forces s = concat (map (\<lambda>e. case e of AtiData v \<Rightarrow> [v] | other \<Rightarrow> []) (events s))"

text \<open>
  A collector at teardown: the session holds a new record for step 0 of trajectory
  \<^verbatim>\<open>a\<close>, and the storage file holds older records for its steps 0 and 1.
\<close>

definition sample_record :: "real \<Rightarrow> step_record" where
  "sample_record f =
     \<lparr>marker_displacement = [], force_xyz = Some (0, 0, f), metadata = None, depth_field = None\<rparr>"

definition stored_session :: state where
  "stored_session =
     (projr (lab_collector quick_config two_pushes (steady_force (0, 0, 0))))
       \<lparr>storage_file :=
          Content (Dict [(''cube'', [(''a'', [(''step_000'', sample_record (- 2)),
                                              (''step_001'', sample_record (- 3))])])]),
        calibration_data := [(''cube'', [(''a'', [(''step_000'', sample_record (- 1))])])]\<rparr>"

text \<open>The state \<^verbatim>\<open>main\<close> ends in, when it gets as far as \<^verbatim>\<open>cleanup\<close>.\<close>

definition final_state :: "outcome option \<Rightarrow> state option" where
  "final_state r = (case r of Some (Done s) \<Rightarrow> Some s | other \<Rightarrow> None)"

definition is_motion :: "event \<Rightarrow> bool" where
  "is_motion e = (case e of MoveCart p \<Rightarrow> True | MoveJoint j \<Rightarrow> True | other \<Rightarrow> False)"

section \<open>Unfolding the devices and the contact loop\<close>

lemmas device_defs = emit_def logger_def robot_moving_def sleep_def moveCart_def moveJoint_def
  set_velocity_def set_acceleration_def

lemma wait_idle_closed:
  "wait_idle dt s = s\<lparr>busy := 0, events := events s @ replicate (busy s) (Sleep dt)\<rparr>"
proof (induction dt s rule: wait_idle.induct)
  case (1 dt s)
  show ?case
  proof (cases "robot_moving s")
    case True
    then obtain n where n: "busy s = Suc n"
      by (cases "busy s") (simp_all add: robot_moving_def)
    have "wait_idle dt s = wait_idle dt (sleep dt s)"
      by (subst wait_idle.simps) (simp add: True)
    also have "\<dots> = (sleep dt s)\<lparr>busy := 0,
        events := events (sleep dt s) @ replicate (busy (sleep dt s)) (Sleep dt)\<rparr>"
      by (rule "1.IH" [OF True])
    also have "\<dots> = s\<lparr>busy := 0, events := events s @ replicate (busy s) (Sleep dt)\<rparr>"
      by (simp add: n sleep_def emit_def)
    finally show ?thesis .
  next
    case False
    then have "busy s = 0" by (simp add: robot_moving_def)
    then have "s\<lparr>busy := 0, events := events s @ replicate (busy s) (Sleep dt)\<rparr> = s"
      by (cases s) simp
    then show ?thesis
      by (subst wait_idle.simps) (simp add: False)
  qed
qed

lemmas motion_defs = move_to_xyz_def move_delta_xyz_def wait_idle_closed

lemmas run_defs = lab_collector_def lab_env_def lab_args_def init_def get_default_config_def
  load_trajectory_config_def config_get_def py_int_def check_joint_limit_def pose0_default_def
  device_defs motion_defs config_item_def get_ati_data_def move_to_contact_def Let_def
  quick_config_def two_pushes_def main_def load_available_objects_def cleanup_def
  move_to_safe_position_def move_to_safe_height_def save_calibration_data_def
  load_storage_def save_storage_def setdefault_def lookup3_def final_state_def
  collect_calibration_data_def execute_trajectory_def collect_current_step_data_def
  sensor_get_data_def get_sensor_force_xyz_def mean3_def step_get_def step_key_def zfill3_def
  dec.simps digit_def normalize_steps_def float3_def py_float_def mk_step_def
  is_motion_def sampled_forces_def steady_force_def force_then_def eval_nat_numeral


lemma seek_contact:
  "ati_src s (ati_reads s) = Some (fx, fy, fz) \<Longrightarrow> map_of (config s) ''max_force'' = Some mf \<Longrightarrow>
   \<not> fz \<le> mf \<Longrightarrow> ati_src s (Suc (ati_reads s)) = Some (gx, gy, g) \<Longrightarrow> g \<le> cont_th s \<Longrightarrow>
   seek_loop False s = Some (Inr True,
      (emit (AtiData (gx, gy, g)) ((emit (AtiData (fx, fy, fz)) (s\<lparr>ati_reads := Suc (ati_reads s)\<rparr>))
          \<lparr>ati_reads := Suc (Suc (ati_reads s))\<rparr>))\<lparr>z_cont := Some (snd (snd (robot_pose s)))\<rparr>)"
  by (subst seek_loop.simps) (simp add: get_ati_data_def config_item_def device_defs)

section \<open>Contact seeking and the safety limit\<close>

text \<open>
  C2.  The claim: the contact height that \<^verbatim>\<open>move_to_contact\<close> records is never one at
  which a force sampled during the descent was at or below \<^verbatim>\<open>max_force\<close>, and the
  reading that triggers the contact detection is never beyond the limit.  The loop reads
  the sensor twice in each round: the first reading goes to the safety check, the second
  to the contact check only.  With the default configuration (\<^verbatim>\<open>max_force\<close> of -1 N) and
  a sensor that reads 0 N and then -5 N, the descent returns normally and records the
  contact height 115.15 on the reading of -5 N.
\<close>

theorem contact_recorded_beyond_safety_limit:
  "map_sum id
     (\<lambda>s. (config_item ''max_force'' s,
            map_option (\<lambda>rs. (fst rs, z_cont (snd rs), sampled_forces (snd rs)))
              (move_to_contact s)))
     (lab_collector None Missing (force_then (0, 0, 0) (0, 0, - 5)))
   = Inr (Inr (- 1), Some (Inr (), Some 115.15, [(0, 0, 0), (0, 0, - 5)]))"
  by (simp add: run_defs seek_contact)

section \<open>Configuration defaults\<close>

text \<open>
  C6.  The claim: when a configuration file omits a recognised option, a default is
  supplied and every read of the option succeeds.  Five options are read with
  \<^verbatim>\<open>.get\<close> and a default; \<^verbatim>\<open>approach_speed\<close>, \<^verbatim>\<open>press_speed\<close> and \<^verbatim>\<open>max_force\<close> are
  read with \<^verbatim>\<open>self.config[...]\<close>.  With a file that holds \<^verbatim>\<open>contact_threshold\<close> only,
  the constructor succeeds and \<^verbatim>\<open>move_to_contact\<close> raises \<^verbatim>\<open>KeyError\<close>.
\<close>

theorem missing_approach_speed_raises:
  "map_sum id (map_option fst \<circ> move_to_contact)
     (lab_collector (Some (Content (Dict [(''contact_threshold'', - 0.05)]))) Missing
        (steady_force (0, 0, 0)))
   = Inr (Some (Inl (KeyError ''approach_speed'')))"
  by (simp add: run_defs)

section \<open>Sessions without records, and dry runs\<close>

text \<open>
  C3.  The claim: a session that produced no step record performs no merge and writes
  nothing.  With no trajectory library and no storage file, \<^verbatim>\<open>collect_calibration_data\<close>
  stores the empty dict under the object's name, so \<^verbatim>\<open>calibration_data\<close> is not empty,
  both guards pass, and \<^verbatim>\<open>cleanup\<close> creates the storage file with an empty entry.
\<close>

theorem empty_session_writes_storage:
  "map_option storage_file
     (final_state (main (lab_args False) (lab_env Missing (steady_force (0, 0, 0)))))
   = Some (Content (Dict [(''cube'', [])]))"
  by (simp add: run_defs)

text \<open>
  C4.  The claim: a dry run issues no motion command and samples no sensor.  The
  constructor has moved the robot twice before \<^verbatim>\<open>main\<close> looks at the flag, and
  \<^verbatim>\<open>cleanup\<close> moves it to the safe position: three Cartesian moves.  No sensor is read.
\<close>

theorem dry_run_moves_robot:
  "map_option (\<lambda>s. (filter is_motion (events s), sampled_forces s, tactile_reads s))
     (final_state (main (lab_args True) (lab_env two_pushes (steady_force (0, 0, 0)))))
   = Some ([MoveCart (574.33, - 176.67, 194.89),
            MoveCart (p_x pose0_default, p_y pose0_default, p_z pose0_default),
            MoveCart (p_x pose0_default, p_y pose0_default, p_z pose0_default + 50)], [], 0)"
  by (simp add: run_defs)

section \<open>How the contact loop ends\<close>






section \<open>Trajectories\<close>

text \<open>
  C5, as claimed: for an empty step list \<^verbatim>\<open>_execute_trajectory\<close> returns the empty
  mapping, and the robot is moved to safe height, to contact and back.  The function
  returns at \<^verbatim>\<open>if not steps\<close>, before any command: after the call the devices have
  received exactly what they had received before it.
\<close>

theorem empty_trajectory_no_motion_counterexample:
  "map_option (map_prod id events)
     (execute_trajectory ''a'' [] (projr (lab_collector quick_config two_pushes (steady_force (0, 0, 0)))))
   = Some (Inr [], events (projr (lab_collector quick_config two_pushes (steady_force (0, 0, 0)))))"
  by (simp add: execute_trajectory_def)

text \<open>
  C5, amended: for an empty step list \<^verbatim>\<open>_execute_trajectory\<close> returns the empty
  mapping and leaves the collector and the devices as they were: no move to safe
  height, no contact seeking, no step motion, no sampling.
\<close>

theorem empty_trajectory_returns_untouched:
  "execute_trajectory trajectory_name [] s = Some (Inr [], s)"
  by (simp add: execute_trajectory_def)

section \<open>The safety fault and the per-trajectory handler\<close>




section \<open>The three encodings of a trajectory\<close>

lemma norm_entries_objects:
  "norm_entries sf (map (\<lambda>t. JObj [(''x'', JNum (fst t)), (''y'', JNum (fst (snd t))),
                            (''z'', JNum (snd (snd t)))]) ts) acc = Inr (acc @ map step_of ts)"
  by (induction ts arbitrary: acc)
     (simp_all add: float3_def py_float_def entry_get_def step_of_def)

lemma norm_entries_tuples:
  "norm_entries sf (map (\<lambda>t. JArr [JNum (fst t), JNum (fst (snd t)), JNum (snd (snd t))]) ts) acc
     = Inr (acc @ map step_of ts)"
  by (induction ts arbitrary: acc)
     (simp_all add: float3_def py_float_def step_of_def)

lemma norm_zip_parallel:
  "norm_zip sf (map (\<lambda>t. JNum (fst t)) ts) (map (\<lambda>t. JNum (fst (snd t))) ts)
      (map (\<lambda>t. JNum (snd (snd t))) ts) acc = Inr (acc @ map step_of ts)"
  by (induction ts arbitrary: acc)
     (simp_all add: float3_def py_float_def step_of_def)

lemma normalize_objects: "normalize_steps sf (enc_objects ts) = Inr (map step_of ts)"
  by (simp add: normalize_steps_def enc_objects_def norm_entries_objects)

lemma normalize_tuples: "normalize_steps sf (enc_tuples ts) = Inr (map step_of ts)"
  by (simp add: normalize_steps_def enc_tuples_def norm_entries_tuples)

lemma normalize_parallel: "normalize_steps sf (enc_parallel ts) = Inr (map step_of ts)"
  by (simp add: normalize_steps_def enc_parallel_def norm_zip_parallel entry_get_def py_iter_def)

text \<open>
  C9.  For every sequence of displacement triples, the list of \<^verbatim>\<open>{x, y, z}\<close> objects,
  the list of three-element lists and the three parallel sequences are normalised to
  the same ordered step list, the one with a step \<^verbatim>\<open>{"x": dx, "y": dy, "z": dz}\<close> per
  triple; so \<^verbatim>\<open>_load_trajectory_config\<close> returns the same library for a file written
  in any of the three.
\<close>

theorem trajectory_encodings_agree:
  "normalize_steps sf (enc_objects ts) = Inr (map step_of ts)
   \<and> normalize_steps sf (enc_tuples ts) = Inr (map step_of ts)
   \<and> normalize_steps sf (enc_parallel ts) = Inr (map step_of ts)
   \<and> load_trajectory_config sf (Content (JObj [(obj, JObj [(traj, enc_tuples ts)])]))
       = load_trajectory_config sf (Content (JObj [(obj, JObj [(traj, enc_objects ts)])]))
   \<and> load_trajectory_config sf (Content (JObj [(obj, JObj [(traj, enc_parallel ts)])]))
       = load_trajectory_config sf (Content (JObj [(obj, JObj [(traj, enc_objects ts)])]))"
  by (simp add: normalize_objects normalize_tuples normalize_parallel load_trajectory_config_def)

section \<open>Merging a session into the storage\<close>

text \<open>
  What the three stores of the merge do to the two- and three-level lookups, then the
  three loops from the inside out: each keeps the entries it does not name, and the
  warnings of each are those of the paths it finds present.
\<close>

lemma map_of_snoc_fresh:
  "map_of d k = None \<Longrightarrow> map_of (d @ [(k, v)]) = (map_of d)(k \<mapsto> v)"
proof
  fix k'
  assume "map_of d k = None"
  then show "map_of (d @ [(k, v)]) k' = ((map_of d)(k \<mapsto> v)) k'"
    by (cases "k' = k") (simp_all add: map_add_def split: option.splits)
qed

lemma map_of_setdefault:
  "map_of (setdefault k v d) = (case map_of d k of None \<Rightarrow> (map_of d)(k \<mapsto> v) | Some u \<Rightarrow> map_of d)"
  by (simp add: setdefault_def map_of_snoc_fresh del: map_of_append split: option.splits)

lemma lookup3_via2:
  "lookup3 d obj traj k = (case lookup2 d obj traj of None \<Rightarrow> None | Some td \<Rightarrow> map_of td k)"
  by (simp add: lookup3_def lookup2_def split: option.splits)

lemma lookup2_setdefault_obj:
  "lookup2 (setdefault obj [] st) obj' traj' = lookup2 st obj' traj'"
  by (simp add: lookup2_def map_of_setdefault split: option.splits)

lemma map_of_setdefault_obj_None:
  "(map_of (setdefault obj [] st) obj' = None) = (obj' \<noteq> obj \<and> map_of st obj' = None)"
  by (auto simp: map_of_setdefault split: option.splits)

lemma lookup2_setdefault_traj:
  "lookup2 (AList.map_entry obj (setdefault traj []) st) obj' traj' =
     (if obj' = obj \<and> traj' = traj \<and> map_of st obj \<noteq> None \<and> lookup2 st obj traj = None
      then Some [] else lookup2 st obj' traj')"
  by (auto simp: lookup2_def map_of_map_entry map_of_setdefault split: option.splits)

lemma map_of_map_entry_None:
  "(map_of (AList.map_entry obj f st) obj' = None) = (map_of st obj' = None)"
  by (simp add: map_of_map_entry split: option.splits)

lemma lookup2_store:
  "lookup2 (AList.map_entry obj (AList.map_entry traj (AList.update k v)) st) obj' traj' =
     (if obj' = obj \<and> traj' = traj then map_option (AList.update k v) (lookup2 st obj traj)
      else lookup2 st obj' traj')"
  by (auto simp: lookup2_def map_of_map_entry split: option.splits)

lemma lookup3_setdefault_obj: "lookup3 (setdefault obj [] st) = lookup3 st"
  by (intro ext) (simp add: lookup3_via2 lookup2_setdefault_obj)

lemma lookup3_setdefault_traj:
  "lookup3 (AList.map_entry obj (setdefault traj []) st) = lookup3 st"
  by (intro ext) (auto simp: lookup3_via2 lookup2_setdefault_traj)

lemma lookup3_store:
  "lookup3 (AList.map_entry obj (AList.map_entry traj (AList.update k v)) st) obj' traj' k' =
     (if obj' = obj \<and> traj' = traj \<and> k' = k \<and> lookup2 st obj traj \<noteq> None then Some v
      else lookup3 st obj' traj' k')"
  by (auto simp: lookup3_via2 lookup2_store update_conv' split: option.splits)

lemma merge_steps_keeps:
  "(lookup2 (fst (merge_steps obj traj steps (st, w))) obj' traj' = None) = (lookup2 st obj' traj' = None)
   \<and> (map_of (fst (merge_steps obj traj steps (st, w))) obj' = None) = (map_of st obj' = None)"
  by (induction steps arbitrary: st w)
     (auto simp: lookup2_store map_of_map_entry_None split: if_splits)

lemma merge_steps_lookup:
  assumes "lookup2 st obj traj \<noteq> None" and "distinct (map fst steps)"
  shows "lookup3 (fst (merge_steps obj traj steps (st, w))) obj' traj' k' =
     (if obj' = obj \<and> traj' = traj
      then (case map_of steps k' of Some v \<Rightarrow> Some v | None \<Rightarrow> lookup3 st obj traj k')
      else lookup3 st obj' traj' k')"
  using assms
proof (induction steps arbitrary: st w)
  case Nil
  then show ?case by simp
next
  case (Cons a steps)
  obtain k v where a: "a = (k, v)" by (cases a)
  let ?st1 = "AList.map_entry obj (AList.map_entry traj (AList.update k v)) st"
  have p: "lookup2 ?st1 obj traj \<noteq> None" using Cons.prems(1) by (simp add: lookup2_store)
  have fresh: "map_of steps k = None"
    using Cons.prems(2) a by (simp add: map_of_eq_None_iff)
  show ?case
    using Cons.IH[OF p, of _] Cons.prems fresh
    by (auto simp: a lookup3_store split: option.splits)
qed

lemma merge_steps_warnings:
  assumes "lookup2 st obj traj \<noteq> None" and "distinct (map fst steps)"
  shows "(x \<in> set (snd (merge_steps obj traj steps (st, w)))) =
     (x \<in> set w \<or> (\<exists>k. x = LogOverwrite obj traj k \<and> k \<in> fst ` set steps
                          \<and> lookup3 st obj traj k \<noteq> None))"
  using assms
proof (induction steps arbitrary: st w)
  case Nil
  then show ?case by simp
next
  case (Cons a steps)
  obtain k v where a: "a = (k, v)" by (cases a)
  let ?st1 = "AList.map_entry obj (AList.map_entry traj (AList.update k v)) st"
  let ?w1 = "if lookup3 st obj traj k \<noteq> None then w @ [LogOverwrite obj traj k] else w"
  have p: "lookup2 ?st1 obj traj \<noteq> None" using Cons.prems(1) by (simp add: lookup2_store)
  have d: "distinct (map fst steps)" and fresh: "k \<notin> fst ` set steps"
    using Cons.prems(2) a by auto
  have same: "k' \<in> fst ` set steps \<Longrightarrow> lookup3 ?st1 obj traj k' = lookup3 st obj traj k'" for k'
    using fresh by (auto simp: lookup3_store)
  have "(x \<in> set (snd (merge_steps obj traj (a # steps) (st, w)))) =
        (x \<in> set (snd (merge_steps obj traj steps (?st1, ?w1))))"
    by (simp add: a)
  also have "\<dots> = (x \<in> set ?w1 \<or> (\<exists>k'. x = LogOverwrite obj traj k' \<and> k' \<in> fst ` set steps
                          \<and> lookup3 ?st1 obj traj k' \<noteq> None))"
    by (rule Cons.IH[OF p d])
  also have "\<dots> = (x \<in> set ?w1 \<or> (\<exists>k'. x = LogOverwrite obj traj k' \<and> k' \<in> fst ` set steps
                          \<and> lookup3 st obj traj k' \<noteq> None))"
    using same by (simp cong: conj_cong)
  also have "\<dots> = (x \<in> set w \<or> (\<exists>k'. x = LogOverwrite obj traj k' \<and> k' \<in> fst ` set (a # steps)
                          \<and> lookup3 st obj traj k' \<noteq> None))"
    unfolding a by (cases "lookup3 st obj traj k") auto
  finally show ?case .
qed

lemma lookup2_Cons:
  "lookup2 ((traj, td) # trajs) traj' k' = (if traj' = traj then map_of td k' else lookup2 trajs traj' k')"
  by (simp add: lookup2_def)

lemma lookup2_fresh:
  assumes "traj \<notin> fst ` set trajs"
  shows "lookup2 trajs traj k' = None"
proof -
  have "map_of trajs traj = None" using assms by (simp add: map_of_eq_None_iff)
  then show ?thesis by (simp add: lookup2_def)
qed

lemma merge_trajs_keeps:
  "(map_of (fst (merge_trajs obj trajs (st, w))) obj' = None) = (map_of st obj' = None)"
proof (induction trajs arbitrary: st w)
  case Nil
  then show ?case by simp
next
  case (Cons a trajs)
  obtain traj td where a: "a = (traj, td)" by (cases a)
  obtain st1 w1 where r: "merge_steps obj traj td (AList.map_entry obj (setdefault traj []) st, w) = (st1, w1)"
    by (cases "merge_steps obj traj td (AList.map_entry obj (setdefault traj []) st, w)")
  have "(map_of st1 obj' = None) = (map_of st obj' = None)"
    using merge_steps_keeps[of obj traj td "AList.map_entry obj (setdefault traj []) st" w obj']
    by (simp add: r map_of_map_entry_None)
  then show ?case using Cons.IH[of st1 w1] by (simp add: a r)
qed

lemma merge_trajs_lookup:
  assumes "map_of st obj \<noteq> None" and "distinct (map fst trajs)"
    and "list_all (\<lambda>td. distinct (map fst td)) (map snd trajs)"
  shows "lookup3 (fst (merge_trajs obj trajs (st, w))) obj' traj' k' =
       (if obj' = obj
        then (case lookup2 trajs traj' k' of Some v \<Rightarrow> Some v | None \<Rightarrow> lookup3 st obj traj' k')
        else lookup3 st obj' traj' k')
     \<and> (x \<in> set (snd (merge_trajs obj trajs (st, w)))) =
       (x \<in> set w \<or> (\<exists>t k. x = LogOverwrite obj t k \<and> lookup2 trajs t k \<noteq> None
                            \<and> lookup3 st obj t k \<noteq> None))"
  using assms
proof (induction trajs arbitrary: st w)
  case Nil
  then show ?case by (simp add: lookup2_def)
next
  case (Cons a trajs)
  obtain traj td where a: "a = (traj, td)" by (cases a)
  let ?st0 = "AList.map_entry obj (setdefault traj []) st"
  obtain st1 w1 where r: "merge_steps obj traj td (?st0, w) = (st1, w1)"
    by (cases "merge_steps obj traj td (?st0, w)")
  have p0: "lookup2 ?st0 obj traj \<noteq> None"
    using Cons.prems(1) by (auto simp: lookup2_setdefault_traj)
  have dtd: "distinct (map fst td)" using Cons.prems(3) a by simp
  have l1: "lookup3 st1 o' t' k'' =
     (if o' = obj \<and> t' = traj
      then (case map_of td k'' of Some v \<Rightarrow> Some v | None \<Rightarrow> lookup3 st obj traj k'')
      else lookup3 st o' t' k'')" for o' t' k''
    using merge_steps_lookup[OF p0 dtd, of w o' t' k''] unfolding r lookup3_setdefault_traj by simp
  have w1: "(x \<in> set w1) = (x \<in> set w \<or> (\<exists>k. x = LogOverwrite obj traj k \<and> k \<in> fst ` set td
                          \<and> lookup3 st obj traj k \<noteq> None))"
    using merge_steps_warnings[OF p0 dtd, of x w] unfolding r lookup3_setdefault_traj by simp
  have p1: "map_of st1 obj \<noteq> None"
    using merge_steps_keeps[of obj traj td ?st0 w obj] Cons.prems(1)
    by (simp add: r map_of_map_entry_None)
  have d: "distinct (map fst trajs)" and la: "list_all (\<lambda>td. distinct (map fst td)) (map snd trajs)"
    and fresh: "traj \<notin> fst ` set trajs"
    using Cons.prems(2,3) a by auto
  note IH = Cons.IH[OF p1 d la, of w1]
  have mem: "(k \<in> fst ` set td) = (map_of td k \<noteq> None)" for k
    by (simp add: map_of_eq_None_iff)
  have other: "lookup2 trajs t k \<noteq> None \<Longrightarrow> lookup3 st1 obj t k = lookup3 st obj t k" for t k
    using fresh by (cases "t = traj") (simp_all add: l1 lookup2_fresh)
  have step: "merge_trajs obj (a # trajs) (st, w) = merge_trajs obj trajs (st1, w1)"
    by (simp add: a r)
  show ?case
  proof (intro conjI)
    show "lookup3 (fst (merge_trajs obj (a # trajs) (st, w))) obj' traj' k' =
       (if obj' = obj
        then (case lookup2 (a # trajs) traj' k' of Some v \<Rightarrow> Some v | None \<Rightarrow> lookup3 st obj traj' k')
        else lookup3 st obj' traj' k')"
    proof -
      have "lookup3 (fst (merge_trajs obj (a # trajs) (st, w))) obj' traj' k' =
          lookup3 (fst (merge_trajs obj trajs (st1, w1))) obj' traj' k'"
        by (simp only: step)
      also have "\<dots> = (if obj' = obj
          then (case lookup2 trajs traj' k' of Some v \<Rightarrow> Some v | None \<Rightarrow> lookup3 st1 obj traj' k')
          else lookup3 st1 obj' traj' k')"
        by (rule IH[THEN conjunct1])
      also have "\<dots> = (if obj' = obj
          then (case lookup2 (a # trajs) traj' k' of Some v \<Rightarrow> Some v | None \<Rightarrow> lookup3 st obj traj' k')
          else lookup3 st obj' traj' k')"
        unfolding a using fresh
        by (auto simp: l1 lookup2_Cons lookup2_fresh split: option.splits)
      finally show ?thesis .
    qed
  next
    have "(x \<in> set (snd (merge_trajs obj (a # trajs) (st, w)))) =
       (x \<in> set w1 \<or> (\<exists>t k. x = LogOverwrite obj t k \<and> lookup2 trajs t k \<noteq> None
                            \<and> lookup3 st1 obj t k \<noteq> None))"
      unfolding step by (rule IH[THEN conjunct2])
    also have "\<dots> = (x \<in> set w1 \<or> (\<exists>t k. x = LogOverwrite obj t k \<and> lookup2 trajs t k \<noteq> None
                            \<and> lookup3 st obj t k \<noteq> None))"
      using other by (simp cong: conj_cong)
    also have "\<dots> = (x \<in> set w \<or> (\<exists>t k. x = LogOverwrite obj t k \<and> lookup2 (a # trajs) t k \<noteq> None
                            \<and> lookup3 st obj t k \<noteq> None))"
    proof -
      have sp: "(lookup2 ((traj, td) # trajs) t k \<noteq> None) =
          (t = traj \<and> k \<in> fst ` set td \<or> t \<noteq> traj \<and> lookup2 trajs t k \<noteq> None)" for t k
        by (simp add: lookup2_Cons mem)
      have ne: "lookup2 trajs t k \<noteq> None \<Longrightarrow> t \<noteq> traj" for t k
        by (auto simp: lookup2_fresh[OF fresh])
      have e1: "(\<exists>t k. x = LogOverwrite obj t k
              \<and> (t = traj \<and> k \<in> fst ` set td \<or> t \<noteq> traj \<and> lookup2 trajs t k \<noteq> None)
              \<and> lookup3 st obj t k \<noteq> None) =
          ((\<exists>k. x = LogOverwrite obj traj k \<and> k \<in> fst ` set td \<and> lookup3 st obj traj k \<noteq> None)
           \<or> (\<exists>t k. x = LogOverwrite obj t k \<and> t \<noteq> traj \<and> lookup2 trajs t k \<noteq> None
                 \<and> lookup3 st obj t k \<noteq> None))"
        by auto
      have e2: "(\<exists>t k. x = LogOverwrite obj t k \<and> t \<noteq> traj \<and> lookup2 trajs t k \<noteq> None
                 \<and> lookup3 st obj t k \<noteq> None) =
          (\<exists>t k. x = LogOverwrite obj t k \<and> lookup2 trajs t k \<noteq> None \<and> lookup3 st obj t k \<noteq> None)"
        by (auto simp: lookup2_fresh[OF fresh])
      show ?thesis
        unfolding w1 a sp e1 e2 by (simp add: disj_assoc)
    qed
    finally show "(x \<in> set (snd (merge_trajs obj (a # trajs) (st, w)))) =
       (x \<in> set w \<or> (\<exists>t k. x = LogOverwrite obj t k \<and> lookup2 (a # trajs) t k \<noteq> None
                            \<and> lookup3 st obj t k \<noteq> None))" .
  qed
qed

lemma lookup3_Cons:
  "lookup3 ((obj, od) # d) obj' traj' k' = (if obj' = obj then lookup2 od traj' k' else lookup3 d obj' traj' k')"
  by (simp add: lookup3_def lookup2_def)

lemma lookup3_fresh:
  assumes "obj \<notin> fst ` set d"
  shows "lookup3 d obj traj k = None"
proof -
  have "map_of d obj = None" using assms by (simp add: map_of_eq_None_iff)
  then show ?thesis by (simp add: lookup3_def)
qed

lemma merge_objs_lookup:
  assumes "wf_tree new"
  shows "lookup3 (fst (merge_objs new (st, w))) obj' traj' k' =
       (case lookup3 new obj' traj' k' of Some v \<Rightarrow> Some v | None \<Rightarrow> lookup3 st obj' traj' k')
     \<and> (x \<in> set (snd (merge_objs new (st, w)))) =
       (x \<in> set w \<or> (\<exists>obj t k. x = LogOverwrite obj t k \<and> lookup3 new obj t k \<noteq> None
                              \<and> lookup3 st obj t k \<noteq> None))"
  using assms
proof (induction new arbitrary: st w)
  case Nil
  then show ?case by (simp add: lookup3_def)
next
  case (Cons a new)
  obtain obj od where a: "a = (obj, od)" by (cases a)
  let ?st0 = "setdefault obj [] st"
  obtain st1 w1 where r: "merge_trajs obj od (?st0, w) = (st1, w1)"
    by (cases "merge_trajs obj od (?st0, w)")
  have p0: "map_of ?st0 obj \<noteq> None" by (simp add: map_of_setdefault_obj_None)
  have dod: "distinct (map fst od)" and lod: "list_all (\<lambda>td. distinct (map fst td)) (map snd od)"
    and wf: "wf_tree new" and fresh: "obj \<notin> fst ` set new"
    using Cons.prems a by (auto simp: wf_tree_def)
  have l1: "lookup3 st1 o' t' k'' =
       (if o' = obj
        then (case lookup2 od t' k'' of Some v \<Rightarrow> Some v | None \<Rightarrow> lookup3 st obj t' k'')
        else lookup3 st o' t' k'')" for o' t' k''
    using merge_trajs_lookup[OF p0 dod lod, of w o' t' k''] unfolding r lookup3_setdefault_obj by simp
  have w1: "(x \<in> set w1) = (x \<in> set w \<or> (\<exists>t k. x = LogOverwrite obj t k \<and> lookup2 od t k \<noteq> None
                            \<and> lookup3 st obj t k \<noteq> None))"
    using merge_trajs_lookup[OF p0 dod lod, of w obj' traj' k' x] unfolding r lookup3_setdefault_obj by simp
  note IH = Cons.IH[OF wf, of st1 w1]
  have other: "lookup3 new o' t k \<noteq> None \<Longrightarrow> lookup3 st1 o' t k = lookup3 st o' t k" for o' t k
    using fresh by (cases "o' = obj") (simp_all add: l1 lookup3_fresh)
  have step: "merge_objs (a # new) (st, w) = merge_objs new (st1, w1)"
    by (simp add: a r)
  show ?case
  proof (intro conjI)
    show "lookup3 (fst (merge_objs (a # new) (st, w))) obj' traj' k' =
       (case lookup3 (a # new) obj' traj' k' of Some v \<Rightarrow> Some v | None \<Rightarrow> lookup3 st obj' traj' k')"
    proof -
      have "lookup3 (fst (merge_objs (a # new) (st, w))) obj' traj' k' =
          lookup3 (fst (merge_objs new (st1, w1))) obj' traj' k'"
        by (simp only: step)
      also have "\<dots> = (case lookup3 new obj' traj' k' of
            Some v \<Rightarrow> Some v | None \<Rightarrow> lookup3 st1 obj' traj' k')"
        by (rule IH[THEN conjunct1])
      also have "\<dots> = (case lookup3 (a # new) obj' traj' k' of
            Some v \<Rightarrow> Some v | None \<Rightarrow> lookup3 st obj' traj' k')"
        unfolding a using fresh
        by (auto simp: l1 lookup3_Cons lookup3_fresh split: option.splits)
      finally show ?thesis .
    qed
  next
    have "(x \<in> set (snd (merge_objs (a # new) (st, w)))) =
       (x \<in> set w1 \<or> (\<exists>o' t k. x = LogOverwrite o' t k \<and> lookup3 new o' t k \<noteq> None
                            \<and> lookup3 st1 o' t k \<noteq> None))"
      unfolding step by (rule IH[THEN conjunct2])
    also have "\<dots> = (x \<in> set w1 \<or> (\<exists>o' t k. x = LogOverwrite o' t k \<and> lookup3 new o' t k \<noteq> None
                            \<and> lookup3 st o' t k \<noteq> None))"
      using other by (simp cong: conj_cong)
    also have "\<dots> = (x \<in> set w \<or> (\<exists>o' t k. x = LogOverwrite o' t k \<and> lookup3 (a # new) o' t k \<noteq> None
                            \<and> lookup3 st o' t k \<noteq> None))"
    proof -
      have sp: "(lookup3 ((obj, od) # new) o' t k \<noteq> None) =
          (o' = obj \<and> lookup2 od t k \<noteq> None \<or> o' \<noteq> obj \<and> lookup3 new o' t k \<noteq> None)" for o' t k
        by (simp add: lookup3_Cons)
      have ne: "lookup3 new o' t k \<noteq> None \<Longrightarrow> o' \<noteq> obj" for o' t k
        by (auto simp: lookup3_fresh[OF fresh])
      have e1: "(\<exists>o' t k. x = LogOverwrite o' t k
              \<and> (o' = obj \<and> lookup2 od t k \<noteq> None \<or> o' \<noteq> obj \<and> lookup3 new o' t k \<noteq> None)
              \<and> lookup3 st o' t k \<noteq> None) =
          ((\<exists>t k. x = LogOverwrite obj t k \<and> lookup2 od t k \<noteq> None \<and> lookup3 st obj t k \<noteq> None)
           \<or> (\<exists>o' t k. x = LogOverwrite o' t k \<and> o' \<noteq> obj \<and> lookup3 new o' t k \<noteq> None
                 \<and> lookup3 st o' t k \<noteq> None))"
        by auto
      have e2: "(\<exists>o' t k. x = LogOverwrite o' t k \<and> o' \<noteq> obj \<and> lookup3 new o' t k \<noteq> None
                 \<and> lookup3 st o' t k \<noteq> None) =
          (\<exists>o' t k. x = LogOverwrite o' t k \<and> lookup3 new o' t k \<noteq> None \<and> lookup3 st o' t k \<noteq> None)"
        by (auto simp: lookup3_fresh[OF fresh])
      show ?thesis
        unfolding w1 a sp e1 e2 by (simp add: disj_assoc)
    qed
    finally show "(x \<in> set (snd (merge_objs (a # new) (st, w)))) =
       (x \<in> set w \<or> (\<exists>o' t k. x = LogOverwrite o' t k \<and> lookup3 (a # new) o' t k \<noteq> None
                            \<and> lookup3 st o' t k \<noteq> None))" .
  qed
qed

text \<open>
  C8.  \<^verbatim>\<open>save_calibration_data\<close>, for a session tree that is not empty, writes the
  three-level union of the loaded store and the session tree: a path (object,
  trajectory, step) of the session tree has the session's value in the written tree, and
  every other path has the value it had in the loaded store (none if it had none), so
  paths present in one tree only keep their values and siblings of an overwritten path
  are untouched.  An overwrite warning for a path is logged exactly when the path is
  in both trees (or had been logged before).
\<close>

theorem save_calibration_data_deep_union:
  assumes "wf_tree (calibration_data s)" and "calibration_data s \<noteq> []"
  shows "\<exists>merged. storage_file (save_calibration_data s) = Content (Dict merged)
     \<and> (\<forall>obj traj k. lookup3 merged obj traj k =
          (case lookup3 (calibration_data s) obj traj k of
             Some v \<Rightarrow> Some v
           | None \<Rightarrow> lookup3 (fst (load_storage s)) obj traj k))
     \<and> (\<forall>obj traj k. LogOverwrite obj traj k \<in> set (log (save_calibration_data s)) \<longleftrightarrow>
          LogOverwrite obj traj k \<in> set (log s)
          \<or> lookup3 (calibration_data s) obj traj k \<noteq> None
            \<and> lookup3 (fst (load_storage s)) obj traj k \<noteq> None)"
proof -
  obtain st s1 where ld: "load_storage s = (st, s1)" by (cases "load_storage s")
  have cd: "calibration_data s1 = calibration_data s"
    and lg: "\<And>obj traj k. LogOverwrite obj traj k \<in> set (log s1) \<longleftrightarrow> LogOverwrite obj traj k \<in> set (log s)"
    using ld by (auto simp: load_storage_def logger_def split: fs_file.splits doc.splits)
  obtain m w where mg: "merge_objs (calibration_data s) (st, []) = (m, w)"
    by (cases "merge_objs (calibration_data s) (st, [])")
  have sv: "save_calibration_data s = save_storage m (s1\<lparr>log := log s1 @ w\<rparr>)"
    using assms(2) by (simp add: save_calibration_data_def ld cd mg)
  have look: "lookup3 m obj traj k =
          (case lookup3 (calibration_data s) obj traj k of
             Some v \<Rightarrow> Some v | None \<Rightarrow> lookup3 st obj traj k)" for obj traj k
    using merge_objs_lookup[OF assms(1), of st "[]" obj traj k] by (simp add: mg)
  have warn: "(x \<in> set w) = (\<exists>obj t k. x = LogOverwrite obj t k
                 \<and> lookup3 (calibration_data s) obj t k \<noteq> None \<and> lookup3 st obj t k \<noteq> None)" for x
    using merge_objs_lookup[OF assms(1), of st "[]" undefined undefined undefined x] by (simp add: mg)
  have written: "storage_file (save_calibration_data s) = Content (Dict m)"
    by (simp add: sv save_storage_def)
  have logs: "log (save_calibration_data s) = log s1 @ w"
    by (simp add: sv save_storage_def)
  show ?thesis
  proof (intro exI[of _ m] conjI allI)
    show "storage_file (save_calibration_data s) = Content (Dict m)" by (rule written)
  next
    fix obj traj k
    show "lookup3 m obj traj k =
          (case lookup3 (calibration_data s) obj traj k of
             Some v \<Rightarrow> Some v
           | None \<Rightarrow> lookup3 (fst (load_storage s)) obj traj k)"
      by (simp add: look ld split: option.splits)
  next
    fix obj traj k
    show "LogOverwrite obj traj k \<in> set (log (save_calibration_data s)) \<longleftrightarrow>
          LogOverwrite obj traj k \<in> set (log s)
          \<or> lookup3 (calibration_data s) obj traj k \<noteq> None
            \<and> lookup3 (fst (load_storage s)) obj traj k \<noteq> None"
      by (simp add: logs warn lg ld)
  qed
qed

text \<open>
  A session with a new step 0 against a store with steps 0 and 1: step 0 is replaced
  with a warning, step 1 keeps its stored record without one.
\<close>

theorem save_calibration_data_deep_union_witness:
  "\<exists>merged. storage_file (save_calibration_data stored_session) = Content (Dict merged)
     \<and> lookup3 merged ''cube'' ''a'' ''step_000'' = Some (sample_record (- 1))
     \<and> lookup3 merged ''cube'' ''a'' ''step_001'' = Some (sample_record (- 3))
     \<and> LogOverwrite ''cube'' ''a'' ''step_000'' \<in> set (log (save_calibration_data stored_session))
     \<and> LogOverwrite ''cube'' ''a'' ''step_001'' \<notin> set (log (save_calibration_data stored_session))"
proof -
  have cd: "calibration_data stored_session = [(''cube'', [(''a'', [(''step_000'', sample_record (- 1))])])]"
    by (simp add: stored_session_def)
  have ld: "fst (load_storage stored_session) =
      [(''cube'', [(''a'', [(''step_000'', sample_record (- 2)), (''step_001'', sample_record (- 3))])])]"
    by (simp add: stored_session_def load_storage_def)
  have lg: "log stored_session = []"
    by (simp add: stored_session_def run_defs)
  have wf: "wf_tree (calibration_data stored_session)" by (simp add: cd wf_tree_def)
  have ne: "calibration_data stored_session \<noteq> []" by (simp add: cd)
  from save_calibration_data_deep_union [OF wf ne]
  obtain merged where m: "storage_file (save_calibration_data stored_session) = Content (Dict merged)"
    and look: "\<And>obj traj k. lookup3 merged obj traj k =
          (case lookup3 (calibration_data stored_session) obj traj k of
             Some v \<Rightarrow> Some v
           | None \<Rightarrow> lookup3 (fst (load_storage stored_session)) obj traj k)"
    and warn: "\<And>obj traj k. LogOverwrite obj traj k \<in> set (log (save_calibration_data stored_session)) \<longleftrightarrow>
          LogOverwrite obj traj k \<in> set (log stored_session)
          \<or> lookup3 (calibration_data stored_session) obj traj k \<noteq> None
            \<and> lookup3 (fst (load_storage stored_session)) obj traj k \<noteq> None"
    by blast
  have n0: "lookup3 (calibration_data stored_session) ''cube'' ''a'' ''step_000''
      = Some (sample_record (- 1))"
    and n1: "lookup3 (calibration_data stored_session) ''cube'' ''a'' ''step_001'' = None"
    by (simp_all add: cd lookup3_def)
  have o0: "lookup3 (fst (load_storage stored_session)) ''cube'' ''a'' ''step_000''
      = Some (sample_record (- 2))"
    and o1: "lookup3 (fst (load_storage stored_session)) ''cube'' ''a'' ''step_001''
      = Some (sample_record (- 3))"
    by (simp_all add: ld lookup3_def)
  show ?thesis
    by (rule exI[of _ merged]) (simp add: m look warn n0 n1 o0 o1 lg)
qed

section \<open>Step keys and step records\<close>

text \<open>
  The step key determines its index: reading the digits after \<^verbatim>\<open>step_\<close> back gives the
  index, whatever the padding.
\<close>

lemma digit_value_digit: "d < 10 \<Longrightarrow> digit_value (digit d) = d"
proof -
  assume "d < 10"
  then have "d = 0 \<or> d = 1 \<or> d = 2 \<or> d = 3 \<or> d = 4 \<or> d = 5 \<or> d = 6 \<or> d = 7 \<or> d = 8 \<or> d = 9"
    by arith
  then show ?thesis
    by (elim disjE) (simp_all add: digit_value_def digit_def)
qed

lemma decimal_value_snoc: "decimal_value (ds @ [c]) = 10 * decimal_value ds + digit_value c"
  by (simp add: decimal_value_def)

lemma decimal_value_dec: "decimal_value (dec n) = n"
proof (induction n rule: dec.induct)
  case (1 n)
  show ?case
  proof (cases "n < 10")
    case True
    then show ?thesis
      by (subst dec.simps) (simp add: decimal_value_def digit_value_digit)
  next
    case False
    then have "decimal_value (dec n) = 10 * decimal_value (dec (n div 10)) + digit_value (digit (n mod 10))"
      by (subst dec.simps) (simp add: decimal_value_snoc)
    also have "\<dots> = 10 * (n div 10) + n mod 10"
      using "1.IH"[OF False] by (simp add: digit_value_digit)
    finally show ?thesis by simp
  qed
qed

lemma decimal_value_zeros: "decimal_value (replicate k CHR ''0'' @ ds) = decimal_value ds"
proof -
  have "foldl (\<lambda>a c. 10 * a + digit_value c) 0 (replicate k CHR ''0'') = 0"
    by (induction k) (simp_all add: digit_value_def)
  then show ?thesis by (simp add: decimal_value_def)
qed

lemma step_key_value: "decimal_value (drop 5 (step_key i)) = i"
  by (simp add: step_key_def zfill3_def decimal_value_zeros decimal_value_dec)

lemma step_key_inj:
  assumes "step_key i = step_key j"
  shows "i = j"
proof -
  have "i = decimal_value (drop 5 (step_key i))" by (simp only: step_key_value)
  also have "\<dots> = decimal_value (drop 5 (step_key j))" by (simp only: assms)
  also have "\<dots> = j" by (simp only: step_key_value)
  finally show ?thesis .
qed

text \<open>
  Sampling leaves the sensors' sources as they are, succeeds when both sensors answer,
  and files the metadata it was given; so does the loop over the steps, which appends
  one fresh key after another.
\<close>

lemma read_frames_src:
  "read_frames n acc s = (r, s') \<Longrightarrow> ati_src s' = ati_src s \<and> tactile_src s' = tactile_src s
     \<and> data_frames s' = data_frames s"
proof (induction n arbitrary: acc s)
  case 0
  then show ?case by simp
next
  case (Suc n)
  show ?case
  proof (cases "ati_src s (ati_reads s)")
    case None
    with Suc.prems show ?thesis
      by (auto simp: get_sensor_force_xyz_def get_ati_data_def Let_def)
  next
    case (Some v)
    with Suc.prems Suc.IH show ?thesis
      by (fastforce simp: get_sensor_force_xyz_def get_ati_data_def Let_def device_defs)
  qed
qed

lemma read_frames_ok:
  "\<forall>k. ati_src s k \<noteq> None \<Longrightarrow> \<exists>fs s'. read_frames n acc s = (Inr fs, s')"
proof (induction n arbitrary: acc s)
  case 0
  then show ?case by simp
next
  case (Suc n)
  from Suc.prems obtain v where v: "ati_src s (ati_reads s) = Some v" by fastforce
  let ?s1 = "sleep (frame_interval (emit (AtiData v) (s\<lparr>ati_reads := Suc (ati_reads s)\<rparr>)))
               (emit (AtiData v) (s\<lparr>ati_reads := Suc (ati_reads s)\<rparr>))"
  have "\<forall>k. ati_src ?s1 k \<noteq> None" using Suc.prems by (simp add: device_defs)
  from Suc.IH[OF this, of "acc @ [rot_sensor s v]"] show ?case
    by (simp add: get_sensor_force_xyz_def get_ati_data_def Let_def v device_defs)
qed

lemma collect_src:
  "collect_current_step_data md s = (r, s') \<Longrightarrow>
     ati_src s' = ati_src s \<and> tactile_src s' = tactile_src s \<and> data_frames s' = data_frames s"
proof -
  assume run: "collect_current_step_data md s = (r, s')"
  show ?thesis
  proof (cases "tactile_src s (tactile_reads s)")
    case None
    with run show ?thesis
      by (auto simp: collect_current_step_data_def sensor_get_data_def Let_def device_defs)
  next
    case (Some m)
    let ?s1 = "emit (TactileData m) (s\<lparr>tactile_reads := Suc (tactile_reads s)\<rparr>)"
    obtain r2 s2 where rf: "read_frames (nat (data_frames ?s1)) [] ?s1 = (r2, s2)"
      by (cases "read_frames (nat (data_frames ?s1)) [] ?s1")
    from read_frames_src[OF rf] have "ati_src s2 = ati_src s \<and> tactile_src s2 = tactile_src s
        \<and> data_frames s2 = data_frames s"
      by (simp add: device_defs)
    with run Some rf show ?thesis
      by (cases r2)
         (auto simp: collect_current_step_data_def sensor_get_data_def Let_def device_defs)
  qed
qed

lemma collect_metadata:
  "collect_current_step_data md s = (Inr r, s') \<Longrightarrow> metadata r = md"
  by (auto simp: collect_current_step_data_def split: prod.splits sum.splits)

lemma collect_ok:
  assumes "\<forall>k. ati_src s k \<noteq> None" and "\<forall>k. tactile_src s k \<noteq> None"
  shows "\<exists>r s'. collect_current_step_data md s = (Inr r, s')"
proof -
  from assms(2) obtain m where m: "tactile_src s (tactile_reads s) = Some m" by fastforce
  let ?s1 = "emit (TactileData m) (s\<lparr>tactile_reads := Suc (tactile_reads s)\<rparr>)"
  have "\<forall>k. ati_src ?s1 k \<noteq> None" using assms(1) by (simp add: device_defs)
  from read_frames_ok[OF this, of "nat (data_frames ?s1)" "[]"]
  obtain fs s2 where "read_frames (nat (data_frames ?s1)) [] ?s1 = (Inr fs, s2)" by blast
  then show ?thesis
    by (simp add: collect_current_step_data_def sensor_get_data_def Let_def m)
qed

lemma move_delta_src:
  "ati_src (move_delta_xyz dx dy dz s) = ati_src s \<and> tactile_src (move_delta_xyz dx dy dz s) = tactile_src s"
  by (cases "robot_pose s") (simp add: motion_defs device_defs)

lemma steps_loop_ok:
  assumes "\<forall>k. ati_src s k \<noteq> None" and "\<forall>k. tactile_src s k \<noteq> None"
  shows "\<exists>td' s'. steps_loop name xs td s = (Inr td', s')"
  using assms
proof (induction xs arbitrary: td s)
  case Nil
  then show ?case by simp
next
  case (Cons a xs)
  obtain idx st where a: "a = (idx, st)" by (cases a)
  let ?s1 = "move_delta_xyz (step_get ''x'' st) (step_get ''y'' st) (step_get ''z'' st) s"
  let ?md = "Some \<lparr>trajectory = name, step_index = idx,
      commanded_delta_mm = (step_get ''x'' st, step_get ''y'' st, step_get ''z'' st)\<rparr>"
  have s1: "\<forall>k. ati_src ?s1 k \<noteq> None" "\<forall>k. tactile_src ?s1 k \<noteq> None"
    using Cons.prems by (simp_all add: move_delta_src)
  from collect_ok[OF s1, of ?md] obtain r s2 where c: "collect_current_step_data ?md ?s1 = (Inr r, s2)"
    by blast
  from collect_src[OF c] s1 have s2: "\<forall>k. ati_src s2 k \<noteq> None" "\<forall>k. tactile_src s2 k \<noteq> None"
    by simp_all
  from Cons.IH[OF s2, of "AList.update (step_key idx) r td"] show ?case
    by (simp add: a Let_def c)
qed

lemma steps_loop_shape:
  assumes "steps_loop name (enumerate k steps) td s = (Inr td', s')"
    and "fst ` set td \<subseteq> step_key ` {..<k}"
  shows "map fst td' = map fst td @ map step_key [k..<k + length steps]
     \<and> (\<forall>i. k \<le> i \<and> i < k + length steps \<longrightarrow>
          (\<exists>r md. map_of td' (step_key i) = Some r \<and> metadata r = Some md \<and> step_index md = i))
     \<and> (\<forall>j<k. map_of td' (step_key j) = map_of td (step_key j))"
  using assms
proof (induction steps arbitrary: k td s)
  case Nil
  then show ?case by auto
next
  case (Cons st steps)
  let ?s1 = "move_delta_xyz (step_get ''x'' st) (step_get ''y'' st) (step_get ''z'' st) s"
  let ?md = "\<lparr>trajectory = name, step_index = k,
      commanded_delta_mm = (step_get ''x'' st, step_get ''y'' st, step_get ''z'' st)\<rparr>"
  obtain r0 s2 where c: "collect_current_step_data (Some ?md) ?s1 = (r0, s2)"
    by (cases "collect_current_step_data (Some ?md) ?s1")
  from Cons.prems(1) c obtain r where r0: "r0 = Inr r"
    by (cases r0) (simp_all add: Let_def)
  let ?td1 = "AList.update (step_key k) r td"
  have run: "steps_loop name (enumerate (Suc k) steps) ?td1 s2 = (Inr td', s')"
    using Cons.prems(1) c r0 by (simp add: Let_def)
  have fresh: "step_key k \<notin> set (map fst td)"
  proof
    assume "step_key k \<in> set (map fst td)"
    then have "step_key k \<in> step_key ` {..<k}" using Cons.prems(2) by auto
    then obtain j where "j < k" "step_key k = step_key j" by auto
    then show False using step_key_inj by blast
  qed
  have keys1: "map fst ?td1 = map fst td @ [step_key k]"
    using fresh by (simp add: update_keys)
  have sub1: "fst ` set ?td1 \<subseteq> step_key ` {..<Suc k}"
    using Cons.prems(2) by (auto simp: dom_update lessThan_Suc)
  note IH = Cons.IH[OF run sub1]
  have md: "metadata r = Some ?md" using collect_metadata c r0 by blast
  have at_k: "map_of td' (step_key k) = Some r"
    using IH by (simp add: update_conv')
  have old: "j < k \<Longrightarrow> map_of td' (step_key j) = map_of td (step_key j)" for j
  proof -
    assume j: "j < k"
    then have "step_key j \<noteq> step_key k" using step_key_inj by blast
    moreover have "map_of td' (step_key j) = map_of ?td1 (step_key j)" using IH j by simp
    ultimately show ?thesis by (simp add: update_conv')
  qed
  show ?case
  proof (intro conjI allI impI)
    have "[k..<k + length (st # steps)] = k # [Suc k..<k + length (st # steps)]"
      by (rule upt_conv_Cons) simp
    then have up: "[k..<k + length (st # steps)] = k # [Suc k..<Suc k + length steps]"
      by simp
    have "map fst td' = map fst ?td1 @ map step_key [Suc k..<Suc k + length steps]"
      using IH by blast
    then show "map fst td' = map fst td @ map step_key [k..<k + length (st # steps)]"
      unfolding up keys1 by simp
  next
    fix i assume i: "k \<le> i \<and> i < k + length (st # steps)"
    show "\<exists>r md. map_of td' (step_key i) = Some r \<and> metadata r = Some md \<and> step_index md = i"
    proof (cases "i = k")
      case True
      then show ?thesis using at_k md by simp
    next
      case False
      then have "Suc k \<le> i \<and> i < Suc k + length steps" using i by simp
      then show ?thesis using IH by blast
    qed
  next
    fix j assume "j < k"
    then show "map_of td' (step_key j) = map_of td (step_key j)" by (rule old)
  qed
qed

lemma seek_loop_src:
  assumes run: "seek_loop c s = Some y"
  shows "ati_src (snd y) = ati_src s \<and> tactile_src (snd y) = tactile_src s"
proof (rule seek_loop.raw_induct[OF _ run])
  fix f c s y
  assume IH: "\<And>c s y. f c s = Some y \<Longrightarrow> ati_src (snd y) = ati_src s \<and> tactile_src (snd y) = tactile_src s"
    and body: "(if c then Some (Inr c, s)
      else (case get_ati_data s of
          (Inl e, s1) \<Rightarrow> Some (Inl e, s1)
        | (Inr (fx, fy, fz), s1) \<Rightarrow>
      (case config_item ''max_force'' s1 of
          Inl e \<Rightarrow> Some (Inl e, s1)
        | Inr max_force \<Rightarrow>
      (if fz \<le> max_force
       then Some (Inl (ForceTooLarge fz), logger (LogForceTooLarge fz) s1)
       else (case get_ati_data s1 of
          (Inl e, s2) \<Rightarrow> Some (Inl e, s2)
        | (Inr (gx, gy, fz_current), s2) \<Rightarrow>
      (if fz_current \<le> cont_th s2
       then Some (Inr True, s2\<lparr>z_cont := Some (snd (snd (robot_pose s2)))\<rparr>)
       else f c (sleep 0.2 (move_delta_xyz 0 0 (- 0.01) s2)))))))) = Some y"
  show "ati_src (snd y) = ati_src s \<and> tactile_src (snd y) = tactile_src s"
    using body
    by (auto split: if_splits prod.splits sum.splits option.splits dest!: IH
         simp: get_ati_data_def config_item_def device_defs motion_defs Let_def)
qed

lemma move_to_contact_src:
  assumes "move_to_contact s = Some (r, s')"
  shows "ati_src s' = ati_src s \<and> tactile_src s' = tactile_src s"
proof -
  define s1 where "s1 = (case z_cont s of
                  Some zc \<Rightarrow>
                    (let s' = set_velocity 20 20 s
                     in (case robot_pose s' of (x, y, z) \<Rightarrow> move_to_xyz x y (zc + 0.1) s'))
                | None \<Rightarrow> move_to_xyz 556.97 (- 200.20) (115.05 + 0.1) s)"
  have s1: "ati_src s1 = ati_src s \<and> tactile_src s1 = tactile_src s"
    by (cases "robot_pose s")
       (simp add: s1_def motion_defs device_defs Let_def split: option.splits)
  show ?thesis
  proof (cases "config_item ''approach_speed'' s1")
    case (Inl e)
    with assms s1 show ?thesis by (simp add: move_to_contact_def s1_def[symmetric])
  next
    case (Inr v)
    from assms Inr obtain y where y: "seek_loop False (set_velocity v v s1) = Some y"
      by (cases "seek_loop False (set_velocity v v s1)")
         (auto simp: move_to_contact_def s1_def[symmetric])
    from seek_loop_src[OF y] s1 have "ati_src (snd y) = ati_src s \<and> tactile_src (snd y) = tactile_src s"
      by (simp add: device_defs)
    with assms Inr y show ?thesis
      by (cases y; cases "fst y")
         (auto simp: move_to_contact_def s1_def[symmetric] device_defs
               split: if_splits sum.splits)
  qed
qed

text \<open>
  C7.  Whenever \<^verbatim>\<open>_execute_trajectory\<close> returns a mapping for a trajectory of N steps,
  the mapping has exactly N records, its keys are \<^verbatim>\<open>step_000\<close> to the key of N - 1 in
  execution order and without repetition, and the record under the key of index i has
  \<^verbatim>\<open>metadata.step_index\<close> equal to i.  And it does return a mapping when every sampling
  succeeds (both sensors answer every read) and, for a trajectory that has steps, the
  contact seeking that precedes them returns.
\<close>

theorem execute_trajectory_step_records:
  "(execute_trajectory name steps s = Some (Inr td, s') \<longrightarrow>
      length td = length steps \<and> map fst td = map step_key [0..<length steps]
      \<and> distinct (map fst td)
      \<and> (\<forall>i<length steps. \<exists>r md. map_of td (step_key i) = Some r
            \<and> metadata r = Some md \<and> step_index md = i))
   \<and> ((\<forall>k. ati_src s k \<noteq> None) \<and> (\<forall>k. tactile_src s k \<noteq> None)
       \<and> (steps \<noteq> [] \<longrightarrow>
            (\<exists>s2. move_to_contact (sleep (step_settle_time (move_to_safe_height s))
                                     (move_to_safe_height s)) = Some (Inr (), s2)))
      \<longrightarrow> (\<exists>td s'. execute_trajectory name steps s = Some (Inr td, s')))"
proof (intro conjI impI)
  assume run: "execute_trajectory name steps s = Some (Inr td, s')"
  have shape: "map fst td = map step_key [0..<length steps]
     \<and> (\<forall>i<length steps. \<exists>r md. map_of td (step_key i) = Some r
            \<and> metadata r = Some md \<and> step_index md = i)"
  proof (cases "steps = []")
    case True
    with run show ?thesis by (simp add: execute_trajectory_def)
  next
    case False
    from run False obtain s3 s4 where "steps_loop name (enumerate 0 steps) [] s3 = (Inr td, s4)"
      by (auto simp: execute_trajectory_def Let_def split: option.splits prod.splits sum.splits)
    from steps_loop_shape[OF this] show ?thesis by simp
  qed
  have "inj_on step_key (set [0..<length steps])"
    using step_key_inj by (auto simp: inj_on_def)
  then have d: "distinct (map step_key [0..<length steps])"
    by (simp add: distinct_map)
  from shape have keys: "map fst td = map step_key [0..<length steps]" by blast
  then have "length (map fst td) = length (map step_key [0..<length steps])"
    by (rule arg_cong)
  then have l: "length td = length steps" by simp
  show "length td = length steps" by (rule l)
  show "map fst td = map step_key [0..<length steps]" using shape by simp
  show "distinct (map fst td)" using shape d by simp
  show "\<forall>i<length steps. \<exists>r md. map_of td (step_key i) = Some r
            \<and> metadata r = Some md \<and> step_index md = i" using shape by simp
next
  assume h: "(\<forall>k. ati_src s k \<noteq> None) \<and> (\<forall>k. tactile_src s k \<noteq> None)
       \<and> (steps \<noteq> [] \<longrightarrow>
            (\<exists>s2. move_to_contact (sleep (step_settle_time (move_to_safe_height s))
                                     (move_to_safe_height s)) = Some (Inr (), s2)))"
  show "\<exists>td s'. execute_trajectory name steps s = Some (Inr td, s')"
  proof (cases "steps = []")
    case True
    then show ?thesis by (simp add: execute_trajectory_def)
  next
    case False
    let ?s1 = "sleep (step_settle_time (move_to_safe_height s)) (move_to_safe_height s)"
    from h False obtain s2 where c: "move_to_contact ?s1 = Some (Inr (), s2)" by blast
    have src1: "ati_src ?s1 = ati_src s \<and> tactile_src ?s1 = tactile_src s"
      by (cases "robot_pose s")
         (simp add: move_to_safe_height_def motion_defs device_defs Let_def)
    from move_to_contact_src[OF c] src1 h
    have s3: "\<forall>k. ati_src (sleep (step_settle_time s2) s2) k \<noteq> None"
      "\<forall>k. tactile_src (sleep (step_settle_time s2) s2) k \<noteq> None"
      by (simp_all add: device_defs)
    from steps_loop_ok[OF s3, of name "enumerate 0 steps" "[]"]
    obtain td' s4 where "steps_loop name (enumerate 0 steps) [] (sleep (step_settle_time s2) s2) = (Inr td', s4)"
      by blast
    with False c show ?thesis
      by (simp add: execute_trajectory_def Let_def)
  qed
qed

text \<open>Two steps in the laboratory, with a force sensor at -0.5 N: two records, in order.\<close>

theorem execute_trajectory_step_records_witness:
  "(\<forall>k. ati_src (projr (lab_collector quick_config two_pushes (steady_force (0, 0, - 0.5)))) k \<noteq> None)
   \<and> (\<forall>k. tactile_src (projr (lab_collector quick_config two_pushes (steady_force (0, 0, - 0.5)))) k \<noteq> None)
   \<and> (\<exists>td s'. execute_trajectory ''a'' [mk_step 0 0 (- 1), mk_step 0 0 (- 1)]
          (projr (lab_collector quick_config two_pushes (steady_force (0, 0, - 0.5))))
        = Some (Inr td, s')
      \<and> length td = 2 \<and> map fst td = [''step_000'', ''step_001'']
      \<and> (\<exists>r md. map_of td ''step_001'' = Some r \<and> metadata r = Some md \<and> step_index md = 1))"
proof -
  let ?W = "projr (lab_collector quick_config two_pushes (steady_force (0, 0, - 0.5)))"
  let ?steps = "[mk_step 0 0 (- 1), mk_step 0 0 (- 1)]"
  have a: "\<forall>k. ati_src ?W k \<noteq> None" by (simp add: run_defs)
  have t: "\<forall>k. tactile_src ?W k \<noteq> None" by (simp add: run_defs)
  have c: "\<exists>s2. move_to_contact (sleep (step_settle_time (move_to_safe_height ?W))
                                     (move_to_safe_height ?W)) = Some (Inr (), s2)"
    by (simp add: run_defs seek_contact)
  from execute_trajectory_step_records [of "''a''" ?steps ?W, THEN conjunct2] a t c
  obtain td s' where run: "execute_trajectory ''a'' ?steps ?W = Some (Inr td, s')" by blast
  from execute_trajectory_step_records [of "''a''" ?steps ?W td s', THEN conjunct1] run
  have shape: "length td = length ?steps \<and> map fst td = map step_key [0..<length ?steps]
      \<and> distinct (map fst td)
      \<and> (\<forall>i<length ?steps. \<exists>r md. map_of td (step_key i) = Some r
            \<and> metadata r = Some md \<and> step_index md = i)"
    by blast
  have k0: "step_key 0 = ''step_000''" and k1: "step_key (Suc 0) = ''step_001''"
    by (simp_all add: step_key_def zfill3_def dec.simps digit_def eval_nat_numeral)
  from shape have len: "length td = 2" by simp
  from shape have "map fst td = map step_key [0..<length ?steps]" by blast
  then have keys: "map fst td = [''step_000'', ''step_001'']"
    by (simp add: upt_rec k0 k1)
  from shape have "\<forall>i<length ?steps. \<exists>r md. map_of td (step_key i) = Some r
            \<and> metadata r = Some md \<and> step_index md = i" by blast
  then have "\<exists>r md. map_of td (step_key (Suc 0)) = Some r
            \<and> metadata r = Some md \<and> step_index md = Suc 0" by simp
  then have last: "\<exists>r md. map_of td ''step_001'' = Some r \<and> metadata r = Some md \<and> step_index md = 1"
    by (simp add: k1)
  have "\<exists>td s'. execute_trajectory ''a'' ?steps ?W = Some (Inr td, s')
      \<and> length td = 2 \<and> map fst td = [''step_000'', ''step_001'']
      \<and> (\<exists>r md. map_of td ''step_001'' = Some r \<and> metadata r = Some md \<and> step_index md = 1)"
    by (rule exI[of _ td], rule exI[of _ s']) (intro conjI run len keys last)
  then show ?thesis by (intro conjI a t)
qed

end
